theory Spec2Isabelle
  imports Complex_Main
begin

section \<open>The curriculum controller of \<^verbatim>\<open>src/tasks/tsp.py\<close>\<close>

text \<open>
  Python integers are unbounded, so every integer field is an \<open>int\<close>. A method of
  \<^verbatim>\<open>TSPCurriculum\<close> mutates the object in place and may raise part-way through; its
  model takes the object's state and returns the outcome of the call (\<open>Inl\<close> the
  exception raised, \<open>Inr\<close> the value returned) together with the state the object is
  left in, which after an exception holds the assignments made before the raise.
\<close>

datatype error = IndexError | AttributeError | TypeError | AssertionError | RuntimeError

text \<open>Subscripting a Python list, \<^verbatim>\<open>xs[i]\<close>: positions \<open>0 \<dots> len - 1\<close> are read directly,
  positions \<open>- len \<dots> - 1\<close> are read from the end, and any other position raises
  \<^verbatim>\<open>IndexError\<close>.\<close>

definition py_index :: "'a list \<Rightarrow> int \<Rightarrow> error + 'a" where
  "py_index xs i =
     (if 0 \<le> i \<and> i < int (length xs) then Inr (xs ! nat i)
      else if - int (length xs) \<le> i \<and> i < 0 then Inr (xs ! nat (int (length xs) + i))
      else Inl IndexError)"

text \<open>\<^verbatim>\<open>_TSPStage\<close>: the four attributes its constructor stores. The type of
  \<^verbatim>\<open>param\<close> (a tensor the curriculum only passes on) is a type parameter.\<close>

record 'p TSPStage =
  stage_num_tiles :: int
  stage_param :: 'p
  stage_start :: int
  stage_length :: int

text \<open>
  \<^verbatim>\<open>TSPDataset(num_nodes, num_samples, seed, num_tiles, param)\<close>. Its contents come from
  the node sampler \<^verbatim>\<open>get_param_nodes\<close>, which is outside this file; a dataset object is
  represented by the arguments of the constructor call that built it.
\<close>

record 'p TSPDataset =
  ds_num_nodes :: int
  ds_num_samples :: int
  ds_seed :: int
  ds_num_tiles :: int
  ds_param :: 'p

text \<open>\<^verbatim>\<open>TSPCurriculum\<close>. The three attributes that \<^verbatim>\<open>__init__\<close> sets to \<^verbatim>\<open>None\<close> are
  options.\<close>

record 'p TSPCurriculum =
  num_nodes :: int
  num_samples :: int
  seed :: int
  stages :: "'p TSPStage list"
  curr_stage_index :: "int option"
  curr_stage :: "'p TSPStage option"
  curr_dataset :: "'p TSPDataset option"
  curr_epoch :: int
  curr_len :: int
  finished :: bool

definition TSPCurriculum_init :: "int \<Rightarrow> int \<Rightarrow> int \<Rightarrow> 'p TSPCurriculum" where
  "TSPCurriculum_init nn ns sd =
     \<lparr>num_nodes = nn, num_samples = ns, seed = sd, stages = [],
      curr_stage_index = None, curr_stage = None, curr_dataset = None,
      curr_epoch = - 1, curr_len = 0, finished = False\<rparr>"

text \<open>The dataset that \<^verbatim>\<open>start\<close> and \<^verbatim>\<open>increment_epoch\<close> construct for a stage.\<close>

definition stage_dataset :: "'p TSPCurriculum \<Rightarrow> 'p TSPStage \<Rightarrow> 'p TSPDataset" where
  "stage_dataset s st =
     \<lparr>ds_num_nodes = num_nodes s, ds_num_samples = num_samples s, ds_seed = seed s,
      ds_num_tiles = stage_num_tiles st, ds_param = stage_param st\<rparr>"

definition increment_epoch :: "'p TSPCurriculum \<Rightarrow> (error + unit) \<times> 'p TSPCurriculum" where
  "increment_epoch s =
     (let s1 = s\<lparr>curr_epoch := curr_epoch s + 1\<rparr>;
          s2 = (if curr_epoch s1 = curr_len s1 then s1\<lparr>finished := True\<rparr> else s1)
      in case curr_stage s2 of
           None \<Rightarrow> (Inl AttributeError, s2)
         | Some cs \<Rightarrow>
             let new_stage_epoch = stage_start cs + stage_length cs + 1 in
             if curr_epoch s2 = new_stage_epoch \<and> \<not> finished s2 then
               (case curr_stage_index s2 of
                  None \<Rightarrow> (Inl TypeError, s2)
                | Some i \<Rightarrow>
                    let s3 = s2\<lparr>curr_stage_index := Some (i + 1)\<rparr> in
                    (case py_index (stages s3) (i + 1) of
                       Inl e \<Rightarrow> (Inl e, s3)
                     | Inr st \<Rightarrow>
                         let s4 = s3\<lparr>curr_stage := Some st\<rparr> in
                         (Inr (), s4\<lparr>curr_dataset := Some (stage_dataset s4 st)\<rparr>)))
             else (Inr (), s2))"

definition get_dataset ::
  "'p TSPCurriculum \<Rightarrow> (error + 'p TSPDataset option) \<times> 'p TSPCurriculum" where
  "get_dataset s =
     (if \<not> finished s then (Inr (curr_dataset s), s) else (Inl AssertionError, s))"

definition add_stage :: "'p TSPCurriculum \<Rightarrow> int \<Rightarrow> 'p \<Rightarrow> int \<Rightarrow> 'p TSPCurriculum" where
  "add_stage s num_tiles param num_epochs =
     (let curr_stage =
            \<lparr>stage_num_tiles = num_tiles, stage_param = param,
             stage_start = curr_len s, stage_length = num_epochs\<rparr>;
          s1 = s\<lparr>stages := stages s @ [curr_stage]\<rparr>
      in s1\<lparr>curr_len := curr_len s1 + num_epochs\<rparr>)"

definition start :: "'p TSPCurriculum \<Rightarrow> (error + unit) \<times> 'p TSPCurriculum" where
  "start s =
     (let s1 = s\<lparr>curr_epoch := 0\<rparr>;
          s2 = s1\<lparr>curr_stage_index := Some 0\<rparr>
      in case py_index (stages s2) 0 of
           Inl e \<Rightarrow> (Inl e, s2)
         | Inr st \<Rightarrow>
             let s3 = s2\<lparr>curr_stage := Some st\<rparr> in
             (Inr (), s3\<lparr>curr_dataset := Some (stage_dataset s3 st)\<rparr>))"

subsection \<open>Driving the curriculum as the trainer does\<close>

text \<open>A trainer adds its stages to a fresh curriculum, calls \<^verbatim>\<open>start\<close>, and then
  \<^verbatim>\<open>increment_epoch\<close> once per epoch. An exception ends the run: the calls after it are
  not made.\<close>

fun add_stages :: "'p TSPCurriculum \<Rightarrow> (int \<times> 'p \<times> int) list \<Rightarrow> 'p TSPCurriculum" where
  "add_stages s [] = s"
| "add_stages s ((num_tiles, param, num_epochs) # rest) =
     add_stages (add_stage s num_tiles param num_epochs) rest"

definition started ::
  "int \<Rightarrow> int \<Rightarrow> int \<Rightarrow> (int \<times> 'p \<times> int) list \<Rightarrow> (error + unit) \<times> 'p TSPCurriculum" where
  "started nn ns sd specs = start (add_stages (TSPCurriculum_init nn ns sd) specs)"

fun increment_epochs :: "nat \<Rightarrow> 'p TSPCurriculum \<Rightarrow> (error + unit) \<times> 'p TSPCurriculum" where
  "increment_epochs 0 s = (Inr (), s)"
| "increment_epochs (Suc k) s =
     (case increment_epoch s of
        (Inl e, s') \<Rightarrow> (Inl e, s')
      | (Inr u, s') \<Rightarrow> increment_epochs k s')"

definition total_epochs :: "(int \<times> 'p \<times> int) list \<Rightarrow> int" where
  "total_epochs specs = sum_list (map (\<lambda>(num_tiles, param, num_epochs). num_epochs) specs)"

section \<open>The tensor functions \<^verbatim>\<open>update_mask\<close> and \<^verbatim>\<open>reward\<close>\<close>

text \<open>
  A tensor is a nested list, outermost dimension first: a tensor of shape \<open>[B, N]\<close> is a
  list of \<open>B\<close> rows of length \<open>N\<close>. Index tensors hold integers. The coordinates are
  floating-point numbers in the program; here they are real numbers, so sums, squares and
  square roots are exact and rounding is not modelled. A failure inside a tensor operation
  (a shape that does not fit, an index out of range) is the \<^verbatim>\<open>RuntimeError\<close> the
  library raises.
\<close>

type_synonym 'a tensor2 = "'a list list"

type_synonym 'a tensor3 = "'a list list list"

text \<open>The first failure among the results of the parts of a tensor, or all their values.\<close>

fun collect :: "(error + 'a) list \<Rightarrow> error + 'a list" where
  "collect [] = Inr []"
| "collect (Inl e # rs) = Inl e"
| "collect (Inr x # rs) = (case collect rs of Inl e \<Rightarrow> Inl e | Inr xs \<Rightarrow> Inr (x # xs))"

text \<open>\<^verbatim>\<open>t.unsqueeze(1)\<close>, for a tensor of shape \<open>[B]\<close> and for one of shape \<open>[B, N]\<close>.\<close>

definition unsqueeze_1d :: "'a list \<Rightarrow> 'a tensor2" where
  "unsqueeze_1d t = map (\<lambda>x. [x]) t"

definition unsqueeze_2d :: "'a tensor2 \<Rightarrow> 'a tensor3" where
  "unsqueeze_2d t = map (\<lambda>row. [row]) t"

subsection \<open>\<^verbatim>\<open>update_mask\<close>\<close>

text \<open>
  \<^verbatim>\<open>self.scatter_(1, index, v)\<close> on a two-dimensional tensor writes
  \<^verbatim>\<open>self[i][index[i][j]] = v\<close> for every position \<open>(i, j)\<close> of \<^verbatim>\<open>index\<close>. It needs
  \<^verbatim>\<open>index\<close> to have no more rows than \<^verbatim>\<open>self\<close> and every index to lie in
  \<open>0 \<dots> N - 1\<close>.
\<close>

fun scatter_row :: "'a list \<Rightarrow> int list \<Rightarrow> 'a \<Rightarrow> error + 'a list" where
  "scatter_row row [] v = Inr row"
| "scatter_row row (j # js) v =
     (if 0 \<le> j \<and> j < int (length row) then scatter_row (row[nat j := v]) js v
      else Inl RuntimeError)"

fun scatter_1 :: "'a tensor2 \<Rightarrow> int tensor2 \<Rightarrow> 'a \<Rightarrow> error + 'a tensor2" where
  "scatter_1 self [] v = Inr self"
| "scatter_1 [] (ix # index) v = Inl RuntimeError"
| "scatter_1 (row # self) (ix # index) v =
     (case scatter_row row ix v of
        Inl e \<Rightarrow> Inl e
      | Inr row' \<Rightarrow>
         (case scatter_1 self index v of
            Inl e \<Rightarrow> Inl e
          | Inr rest \<Rightarrow> Inr (row' # rest)))"

text \<open>
  \<^verbatim>\<open>scatter_\<close> works in place and \<^verbatim>\<open>update_mask\<close> returns its argument, so the identity
  of the mask object matters: tensors live in a store, a Python variable holds a reference
  into it, and the function returns the new store and the reference it returns. (The
  parameter \<^verbatim>\<open>mask\<close> is called \<open>mask_ref\<close> here, \<open>mask\<close> being a constant of HOL.) The
  written value is the zero of the mask's element type.
\<close>

type_synonym 'a store = "nat \<Rightarrow> 'a tensor2"

definition update_mask ::
  "('a::zero) store \<Rightarrow> nat \<Rightarrow> 'd \<Rightarrow> int list \<Rightarrow> error + ('a store \<times> nat)" where
  "update_mask h mask_ref dynamic chosen_idx =
     (case scatter_1 (h mask_ref) (unsqueeze_1d chosen_idx) 0 of
        Inl e \<Rightarrow> Inl e
      | Inr m \<Rightarrow> Inr (h(mask_ref := m), mask_ref))"

subsection \<open>\<^verbatim>\<open>reward\<close>\<close>

text \<open>
  \<^verbatim>\<open>t.expand_as(other)\<close>: in every dimension the size of \<^verbatim>\<open>t\<close> is that of \<^verbatim>\<open>other\<close>, or it
  is 1 and the single entry is repeated.
\<close>

definition expand_dim :: "nat \<Rightarrow> 'a list \<Rightarrow> error + 'a list" where
  "expand_dim n xs =
     (if length xs = n then Inr xs
      else if length xs = 1 then Inr (replicate n (hd xs))
      else Inl RuntimeError)"

definition expand_as :: "'a tensor3 \<Rightarrow> 'b tensor3 \<Rightarrow> error + 'a tensor3" where
  "expand_as t other =
     (case expand_dim (length other) t of
        Inl e \<Rightarrow> Inl e
      | Inr t0 \<Rightarrow>
          collect (map2 (\<lambda>m om.
            case expand_dim (length om) m of
              Inl e \<Rightarrow> Inl e
            | Inr m1 \<Rightarrow> collect (map2 (\<lambda>row orow. expand_dim (length orow) row) m1 om))
            t0 other))"

text \<open>
  \<^verbatim>\<open>torch.gather(input, 2, index)\<close>: the result has the shape of \<^verbatim>\<open>index\<close> and holds
  \<^verbatim>\<open>input[b][d][index[b][d][k]]\<close>; \<^verbatim>\<open>index\<close> must not exceed \<^verbatim>\<open>input\<close> in the first two
  dimensions and every index must lie in \<open>0 \<dots> N - 1\<close>.
\<close>

definition gather_row :: "'a list \<Rightarrow> int list \<Rightarrow> error + 'a list" where
  "gather_row row ix =
     (if \<forall>j \<in> set ix. 0 \<le> j \<and> j < int (length row) then Inr (map (\<lambda>j. row ! nat j) ix)
      else Inl RuntimeError)"

definition gather_2 :: "'a tensor3 \<Rightarrow> int tensor3 \<Rightarrow> error + 'a tensor3" where
  "gather_2 input index =
     (if length index \<le> length input then
        collect (map2 (\<lambda>m im.
          if length im \<le> length m then collect (map2 gather_row m im)
          else Inl RuntimeError) input index)
      else Inl RuntimeError)"

text \<open>
  \<^verbatim>\<open>t.permute(0, 2, 1)\<close> swaps the last two dimensions of every instance. A nested list
  with no row does not record the length of its rows, so an instance without coordinate
  rows becomes the empty list of points; the tour length computed from it is 0 in either
  reading.
\<close>

definition swap_dims :: "'a tensor2 \<Rightarrow> 'a tensor2" where
  "swap_dims m =
     (case m of [] \<Rightarrow> [] | r # _ \<Rightarrow> map (\<lambda>k. map (\<lambda>row. row ! k) m) [0..<length r])"

definition permute_0_2_1 :: "'a tensor3 \<Rightarrow> 'a tensor3" where
  "permute_0_2_1 t = map swap_dims t"

text \<open>
  \<^verbatim>\<open>reward\<close>, statement by statement: \<^verbatim>\<open>tour[:, :1]\<close> is \<open>map (take 1)\<close>, \<^verbatim>\<open>torch.cat\<close>
  along dimension 1 appends instance by instance, \<^verbatim>\<open>y[:, :-1]\<close> is \<open>map butlast\<close> and
  \<^verbatim>\<open>y[:, 1:]\<close> is \<open>map tl\<close>; \<^verbatim>\<open>detach()\<close> does not change the values.
\<close>

definition reward :: "real tensor3 \<Rightarrow> int tensor2 \<Rightarrow> error + real list" where
  "reward static tour_indices =
     (case expand_as (unsqueeze_2d tour_indices) static of
        Inl e \<Rightarrow> Inl e
      | Inr idx \<Rightarrow>
         (case gather_2 static idx of
            Inl e \<Rightarrow> Inl e
          | Inr gathered \<Rightarrow>
              let tour = permute_0_2_1 gathered;
                  y = map2 (@) tour (map (take 1) tour);
                  diff = map2 (map2 (map2 (-))) (map butlast y) (map tl y);
                  tour_len = map (map (\<lambda>p. sqrt (sum_list (map (\<lambda>x. x ^ 2) p)))) diff
              in Inr (map sum_list tour_len)))"

subsection \<open>The tour length in the words of the specification\<close>

text \<open>
  The Euclidean distance between cities \<open>i\<close> and \<open>j\<close> of an instance (one row per
  coordinate), and the length of the closed tour: the sum over the consecutive pairs of
  the visit order, the pair from the last visited city back to the first included.
\<close>

definition euclid :: "real tensor2 \<Rightarrow> nat \<Rightarrow> nat \<Rightarrow> real" where
  "euclid m i j = sqrt (\<Sum>row\<leftarrow>m. (row ! i - row ! j) ^ 2)"

definition closed_tour_length :: "real tensor2 \<Rightarrow> int list \<Rightarrow> real" where
  "closed_tour_length m t =
     (\<Sum>k\<leftarrow>[0..<length t]. euclid m (nat (t ! k)) (nat (t ! ((k + 1) mod length t))))"

text \<open>The shapes of the arguments, and tours whose entries are city indices.\<close>

definition has_shape2 :: "nat \<Rightarrow> nat \<Rightarrow> 'a tensor2 \<Rightarrow> bool" where
  "has_shape2 B N t \<longleftrightarrow> length t = B \<and> (\<forall>row \<in> set t. length row = N)"

definition has_shape3 :: "nat \<Rightarrow> nat \<Rightarrow> nat \<Rightarrow> 'a tensor3 \<Rightarrow> bool" where
  "has_shape3 B D N t \<longleftrightarrow> length t = B \<and> (\<forall>m \<in> set t. has_shape2 D N m)"

definition valid_tours :: "nat \<Rightarrow> int tensor2 \<Rightarrow> bool" where
  "valid_tours N t \<longleftrightarrow> (\<forall>row \<in> set t. \<forall>j \<in> set row. 0 \<le> j \<and> j < int N)"

subsection \<open>Auxiliary notions for the proofs about \<^verbatim>\<open>reward\<close>\<close>

text \<open>What the operations of \<^verbatim>\<open>reward\<close> compute for a single instance: the gathered
  coordinates, the length of one edge, and the sum over the closed sequence of points.\<close>

definition gathered_instance :: "'a tensor2 \<Rightarrow> int list \<Rightarrow> 'a tensor2" where
  "gathered_instance m t = map (\<lambda>row. map (\<lambda>j. row ! nat j) t) m"

definition edge_length :: "real list \<Rightarrow> real list \<Rightarrow> real" where
  "edge_length p q = sqrt (sum_list (map (\<lambda>x. x ^ 2) (map2 (-) p q)))"

definition instance_length :: "real tensor2 \<Rightarrow> real" where
  "instance_length g =
     (let tour = swap_dims g; y = tour @ take 1 tour
      in sum_list (map (\<lambda>p. sqrt (sum_list (map (\<lambda>x. x ^ 2) p)))
           (map2 (map2 (-)) (butlast y) (tl y))))"

section \<open>Auxiliary notions for the proofs about the curriculum\<close>

text \<open>The stage list that \<^verbatim>\<open>add_stage\<close> builds from a list of arguments, when the
  cumulative length before the first of them is \<open>c\<close>.\<close>

fun stages_from :: "int \<Rightarrow> (int \<times> 'p \<times> int) list \<Rightarrow> 'p TSPStage list" where
  "stages_from c [] = []"
| "stages_from c ((num_tiles, param, num_epochs) # rest) =
     \<lparr>stage_num_tiles = num_tiles, stage_param = param, stage_start = c,
      stage_length = num_epochs\<rparr> # stages_from (c + num_epochs) rest"


text \<open>
  The invariant of a started curriculum: the index points into the stage list, the cached
  stage and dataset are those of that index, a stage other than the first is entered by an
  \<^verbatim>\<open>increment_epoch\<close> call, \<^verbatim>\<open>finished\<close> has latched exactly when the epoch has reached a
  positive cumulative length, the last stage ends at the cumulative length, and the
  curriculum is not the single stage of length zero.
\<close>

definition running :: "'p TSPCurriculum \<Rightarrow> bool" where
  "running s \<longleftrightarrow>
     (\<exists>i < length (stages s).
         curr_stage_index s = Some (int i) \<and> curr_stage s = Some (stages s ! i)
         \<and> curr_dataset s = Some (stage_dataset s (stages s ! i))
         \<and> (0 < i \<longrightarrow> 1 \<le> curr_epoch s))
     \<and> 0 \<le> curr_epoch s
     \<and> (finished s \<longleftrightarrow> 1 \<le> curr_len s \<and> curr_len s \<le> curr_epoch s)
     \<and> stage_start (last (stages s)) + stage_length (last (stages s)) = curr_len s
     \<and> \<not> (length (stages s) = 1 \<and> curr_len s = 0)"

text \<open>The curriculum has not reached its last stage, and the stage before the last hands
  over at the cumulative length (which is so when the last stage has length 1).\<close>

definition before_last :: "'p TSPCurriculum \<Rightarrow> bool" where
  "before_last s \<longleftrightarrow>
     (\<exists>i. curr_stage_index s = Some (int i) \<and> Suc i < length (stages s))
     \<and> stage_start (stages s ! (length (stages s) - 2))
         + stage_length (stages s ! (length (stages s) - 2)) + 1 = curr_len s"

section \<open>Properties of the curriculum controller\<close>

subsection \<open>Building and running\<close>

lemma total_epochs_simps [simp]:
  "total_epochs [] = 0"
  "total_epochs ((t, p, e) # rest) = e + total_epochs rest"
  by (simp_all add: total_epochs_def)

lemma total_epochs_append [simp]:
  "total_epochs (xs @ ys) = total_epochs xs + total_epochs ys"
  by (simp add: total_epochs_def)

lemma add_stages_eq:
  "add_stages s specs =
     s\<lparr>stages := stages s @ stages_from (curr_len s) specs,
       curr_len := curr_len s + total_epochs specs\<rparr>"
proof (induction specs arbitrary: s)
  case Nil
  show ?case by simp
next
  case (Cons x specs)
  obtain t p e where x: "x = (t, p, e)" by (cases x)
  show ?case
    unfolding x by (simp add: Cons.IH add_stage_def Let_def)
qed

lemma length_stages_from [simp]: "length (stages_from c specs) = length specs"
  by (induction c specs rule: stages_from.induct) simp_all

lemma stages_from_append:
  "stages_from c (xs @ ys) = stages_from c xs @ stages_from (c + total_epochs xs) ys"
  by (induction c xs rule: stages_from.induct) (simp_all add: add.assoc)

lemma stages_from_last:
  "specs \<noteq> [] \<Longrightarrow>
     stage_start (last (stages_from c specs)) + stage_length (last (stages_from c specs))
       = c + total_epochs specs"
proof (induction c specs rule: stages_from.induct)
  case (1 c)
  then show ?case by simp
next
  case (2 c t p e rest)
  show ?case
  proof (cases "rest = []")
    case True
    then show ?thesis by simp
  next
    case False
    then have "stages_from (c + e) rest \<noteq> []" 
      by (metis length_stages_from length_0_conv)
    with 2 False show ?thesis by simp
  qed
qed


lemma py_index_nat: "i < length xs \<Longrightarrow> py_index xs (int i) = Inr (xs ! i)"
  by (simp add: py_index_def)

lemma increment_epoch_epoch: "curr_epoch (snd (increment_epoch s)) = curr_epoch s + 1"
  by (simp add: increment_epoch_def Let_def split: option.splits sum.splits)

lemma increment_epoch_frame:
  "stages (snd (increment_epoch s)) = stages s"
  "curr_len (snd (increment_epoch s)) = curr_len s"
  "num_nodes (snd (increment_epoch s)) = num_nodes s"
  "num_samples (snd (increment_epoch s)) = num_samples s"
  "seed (snd (increment_epoch s)) = seed s"
  by (simp_all add: increment_epoch_def Let_def split: option.splits sum.splits)

lemma running_step:
  assumes "running s"
  shows "fst (increment_epoch s) = Inr () \<and> running (snd (increment_epoch s))"
proof -
  from assms obtain i where i: "i < length (stages s)"
    and idx: "curr_stage_index s = Some (int i)"
    and cs: "curr_stage s = Some (stages s ! i)"
    and ds: "curr_dataset s = Some (stage_dataset s (stages s ! i))"
    and pos: "0 < i \<longrightarrow> 1 \<le> curr_epoch s"
    and e0: "0 \<le> curr_epoch s"
    and fin: "finished s \<longleftrightarrow> 1 \<le> curr_len s \<and> curr_len s \<le> curr_epoch s"
    and lst: "stage_start (last (stages s)) + stage_length (last (stages s)) = curr_len s"
    and deg: "\<not> (length (stages s) = 1 \<and> curr_len s = 0)"
    unfolding running_def by blast
  let ?fin' = "finished s \<or> curr_epoch s + 1 = curr_len s"
  let ?fire = "curr_epoch s + 1 = stage_start (stages s ! i) + stage_length (stages s ! i) + 1
               \<and> \<not> ?fin'"
  have fin': "?fin' \<longleftrightarrow> 1 \<le> curr_len s \<and> curr_len s \<le> curr_epoch s + 1"
    using fin e0 by auto
  show ?thesis
  proof (cases ?fire)
    case False
    then have eq: "increment_epoch s =
        (Inr (), s\<lparr>curr_epoch := curr_epoch s + 1, finished := ?fin'\<rparr>)"
      using cs by (auto simp: increment_epoch_def Let_def)
    show ?thesis
      unfolding eq running_def using i idx cs ds pos e0 fin' lst deg
      by (auto simp: stage_dataset_def)
  next
    case True
    have "Suc i < length (stages s)"
    proof (rule ccontr)
      assume "\<not> Suc i < length (stages s)"
      with i have il: "i = length (stages s) - 1" by simp
      from i have "stages s \<noteq> []" by auto
      with il have "stages s ! i = last (stages s)" by (simp add: last_conv_nth)
      with True lst have eT: "curr_epoch s = curr_len s" and nf: "\<not> finished s" by auto
      from nf fin eT have "curr_len s \<le> 0" by auto
      with eT e0 have T0: "curr_len s = 0" and "curr_epoch s = 0" by auto
      with pos have "i = 0" by auto
      with il i have "length (stages s) = 1" by (cases "stages s") auto
      with deg T0 show False by simp
    qed
    then have ix: "py_index (stages s) (int i + 1) = Inr (stages s ! Suc i)"
      using py_index_nat [of "Suc i" "stages s"] by (simp add: add.commute)
    from True have eq: "increment_epoch s =
        (Inr (), s\<lparr>curr_epoch := curr_epoch s + 1, curr_stage_index := Some (int i + 1),
                   curr_stage := Some (stages s ! Suc i),
                   curr_dataset := Some (stage_dataset s (stages s ! Suc i))\<rparr>)"
      using cs idx ix by (auto simp: increment_epoch_def Let_def stage_dataset_def)
    have "\<exists>j < length (stages s). int i + 1 = int j \<and> stages s ! Suc i = stages s ! j \<and> j = Suc i"
      using \<open>Suc i < length (stages s)\<close> by auto
    then show ?thesis
      unfolding eq running_def using True e0 fin' lst deg fin
      by (auto simp: stage_dataset_def)
  qed
qed


lemma increment_epochs_running:
  "running s \<Longrightarrow>
     fst (increment_epochs k s) = Inr () \<and> running (snd (increment_epochs k s))
     \<and> curr_epoch (snd (increment_epochs k s)) = curr_epoch s + int k
     \<and> stages (snd (increment_epochs k s)) = stages s
     \<and> curr_len (snd (increment_epochs k s)) = curr_len s"
proof (induction k arbitrary: s)
  case 0
  then show ?case by simp
next
  case (Suc k)
  obtain s' where s': "increment_epoch s = (Inr (), s')"
    using running_step [OF Suc.prems] by (cases "increment_epoch s") auto
  from running_step [OF Suc.prems] s' have r': "running s'" by simp
  from s' increment_epoch_epoch [of s] increment_epoch_frame(1,2) [of s]
  have fr: "curr_epoch s' = curr_epoch s + 1" "stages s' = stages s" "curr_len s' = curr_len s"
    by simp_all
  show ?case using Suc.IH [OF r'] s' fr by simp
qed

lemma increment_epochs_Suc_end:
  "increment_epochs (Suc k) s =
     (case increment_epochs k s of
        (Inl e, s') \<Rightarrow> (Inl e, s')
      | (Inr u, s') \<Rightarrow> increment_epoch s')"
proof (induction k arbitrary: s)
  case 0
  show ?case by (cases "increment_epoch s") (auto split: sum.splits)
next
  case (Suc k)
  show ?case
  proof (cases "increment_epoch s")
    case (Pair r s')
    show ?thesis
    proof (cases r)
      case (Inl e)
      with Pair show ?thesis by simp
    next
      case (Inr u)
      with Pair have "increment_epochs (Suc (Suc k)) s = increment_epochs (Suc k) s'" by simp
      also have "\<dots> = (case increment_epochs k s' of
          (Inl e, s'') \<Rightarrow> (Inl e, s'') | (Inr u, s'') \<Rightarrow> increment_epoch s'')"
        by (rule Suc.IH)
      also have "increment_epochs k s' = increment_epochs (Suc k) s"
        using Pair Inr by simp
      finally show ?thesis .
    qed
  qed
qed

lemma started_eq:
  assumes "specs \<noteq> []"
  shows "started nn ns sd specs =
    (Inr (),
     \<lparr>num_nodes = nn, num_samples = ns, seed = sd, stages = stages_from 0 specs,
      curr_stage_index = Some 0, curr_stage = Some (stages_from 0 specs ! 0),
      curr_dataset = Some \<lparr>ds_num_nodes = nn, ds_num_samples = ns, ds_seed = sd,
         ds_num_tiles = stage_num_tiles (stages_from 0 specs ! 0),
         ds_param = stage_param (stages_from 0 specs ! 0)\<rparr>,
      curr_epoch = 0, curr_len = total_epochs specs, finished = False\<rparr>)"
proof -
  from assms have "0 < length (stages_from 0 specs)" by simp
  then have "py_index (stages_from 0 specs) 0 = Inr (stages_from 0 specs ! 0)"
    using py_index_nat [of 0 "stages_from 0 specs"] by simp
  then show ?thesis
    by (simp add: started_def start_def add_stages_eq TSPCurriculum_init_def Let_def
        stage_dataset_def)
qed

lemma started_running:
  assumes "specs \<noteq> []" and "\<not> (length specs = 1 \<and> total_epochs specs = 0)"
  shows "running (snd (started nn ns sd specs))"
proof -
  have "stage_start (last (stages_from 0 specs)) + stage_length (last (stages_from 0 specs))
      = total_epochs specs"
    using stages_from_last [OF assms(1), of 0] by simp
  then show ?thesis
    using assms unfolding started_eq [OF assms(1)] running_def
    by (auto simp: stage_dataset_def)
qed

lemma increment_epoch_idle:
  assumes "curr_stage s = Some st" and "\<not> finished s"
    and "curr_epoch s + 1 \<noteq> curr_len s"
    and "curr_epoch s + 1 \<noteq> stage_start st + stage_length st + 1"
  shows "increment_epoch s = (Inr (), s\<lparr>curr_epoch := curr_epoch s + 1\<rparr>)"
  using assms by (simp add: increment_epoch_def Let_def)

lemma increment_epochs_idle:
  assumes "curr_stage s = Some st" and "\<not> finished s"
    and "\<forall>j. 1 \<le> j \<and> j \<le> int k \<longrightarrow>
          curr_epoch s + j \<noteq> curr_len s
          \<and> curr_epoch s + j \<noteq> stage_start st + stage_length st + 1"
  shows "increment_epochs k s = (Inr (), s\<lparr>curr_epoch := curr_epoch s + int k\<rparr>)"
  using assms
proof (induction k arbitrary: s)
  case 0
  show ?case by simp
next
  case (Suc k)
  let ?s' = "s\<lparr>curr_epoch := curr_epoch s + 1\<rparr>"
  have "(1::int) \<le> 1 \<and> 1 \<le> int (Suc k)" by simp
  with Suc.prems(3) have "curr_epoch s + 1 \<noteq> curr_len s"
    "curr_epoch s + 1 \<noteq> stage_start st + stage_length st + 1"
    by blast+
  from increment_epoch_idle [OF Suc.prems(1,2) this]
  have step: "increment_epoch s = (Inr (), ?s')" .
  have "\<forall>j. 1 \<le> j \<and> j \<le> int k \<longrightarrow>
          curr_epoch ?s' + j \<noteq> curr_len ?s'
          \<and> curr_epoch ?s' + j \<noteq> stage_start st + stage_length st + 1"
  proof (intro allI impI)
    fix j :: int assume j: "1 \<le> j \<and> j \<le> int k"
    then have "1 \<le> j + 1 \<and> j + 1 \<le> int (Suc k)" by simp
    with Suc.prems(3) have "curr_epoch s + (j + 1) \<noteq> curr_len s
          \<and> curr_epoch s + (j + 1) \<noteq> stage_start st + stage_length st + 1" by blast
    then show "curr_epoch ?s' + j \<noteq> curr_len ?s'
          \<and> curr_epoch ?s' + j \<noteq> stage_start st + stage_length st + 1"
      by (simp add: add.assoc add.commute)
  qed
  from Suc.IH [of ?s', OF _ _ this] Suc.prems(1,2)
  have "increment_epochs k ?s' = (Inr (), ?s'\<lparr>curr_epoch := curr_epoch ?s' + int k\<rparr>)" by simp
  with step show ?case by (simp add: add.assoc add.commute)
qed

lemma before_last_step:
  assumes r: "running s" and b: "before_last s"
  shows "before_last (snd (increment_epoch s))"
proof -
  from b obtain i where idx: "curr_stage_index s = Some (int i)"
    and i: "Suc i < length (stages s)"
    and pen: "stage_start (stages s ! (length (stages s) - 2))
         + stage_length (stages s ! (length (stages s) - 2)) + 1 = curr_len s"
    unfolding before_last_def by blast
  from r idx have cs: "curr_stage s = Some (stages s ! i)"
    unfolding running_def by auto
  let ?fin' = "finished s \<or> curr_epoch s + 1 = curr_len s"
  let ?fire = "curr_epoch s + 1 = stage_start (stages s ! i) + stage_length (stages s ! i) + 1
               \<and> \<not> ?fin'"
  show ?thesis
  proof (cases ?fire)
    case False
    then have eq: "increment_epoch s =
        (Inr (), s\<lparr>curr_epoch := curr_epoch s + 1, finished := ?fin'\<rparr>)"
      using cs by (auto simp: increment_epoch_def Let_def)
    show ?thesis unfolding eq before_last_def using idx i pen by simp
  next
    case True
    have "i \<noteq> length (stages s) - 2"
    proof
      assume "i = length (stages s) - 2"
      with pen True show False by auto
    qed
    with i have i2: "Suc (Suc i) < length (stages s)" by arith
    have ix: "py_index (stages s) (int i + 1) = Inr (stages s ! Suc i)"
      using py_index_nat [OF i] by (simp add: add.commute)
    from True have eq: "increment_epoch s =
        (Inr (), s\<lparr>curr_epoch := curr_epoch s + 1, curr_stage_index := Some (int i + 1),
                   curr_stage := Some (stages s ! Suc i),
                   curr_dataset := Some (stage_dataset s (stages s ! Suc i))\<rparr>)"
      using cs idx ix by (auto simp: increment_epoch_def Let_def stage_dataset_def)
    have "\<exists>j. int i + 1 = int j \<and> Suc j < length (stages s)"
      using i2 by (intro exI [of _ "Suc i"]) simp
    then show ?thesis unfolding eq before_last_def using pen by simp
  qed
qed


lemma increment_epochs_before_last:
  "running s \<Longrightarrow> before_last s \<Longrightarrow> before_last (snd (increment_epochs k s))"
proof (induction k arbitrary: s)
  case 0
  then show ?case by simp
next
  case (Suc k)
  obtain s' where s': "increment_epoch s = (Inr (), s')"
    using running_step [OF Suc.prems(1)] by (cases "increment_epoch s") auto
  from running_step [OF Suc.prems(1)] s' have r': "running s'" by simp
  from before_last_step [OF Suc.prems] s' have b': "before_last s'" by simp
  show ?case using Suc.IH [OF r' b'] s' by simp
qed

lemma increment_epochs_params:
  "num_nodes (snd (increment_epochs k s)) = num_nodes s
   \<and> num_samples (snd (increment_epochs k s)) = num_samples s
   \<and> seed (snd (increment_epochs k s)) = seed s"
proof (induction k arbitrary: s)
  case 0
  show ?case by simp
next
  case (Suc k)
  show ?case
    using Suc.IH [of "snd (increment_epoch s)"] increment_epoch_frame(3,4,5) [of s]
    by (cases "increment_epoch s") (auto split: sum.splits)
qed

lemma finished_latch_step:
  "finished s \<Longrightarrow> snd (increment_epoch s) = s\<lparr>curr_epoch := curr_epoch s + 1\<rparr>"
  by (simp add: increment_epoch_def Let_def split: option.splits)

subsection \<open>The claims about the curriculum\<close>

text \<open>
  C1 (as amended). For a curriculum whose first stage has length \<open>L \<ge> 0\<close> and is followed
  by a second stage, and whose total length is not one of \<open>1, \<dots>, L + 1\<close> (so that
  \<^verbatim>\<open>finished\<close> has not latched by epoch \<open>L + 1\<close>): after \<^verbatim>\<open>start()\<close> and \<open>k \<le> L\<close> calls of
  \<^verbatim>\<open>increment_epoch()\<close> the stage index is still 0 and \<^verbatim>\<open>get_dataset()\<close> returns the first
  stage's dataset; after \<open>L + 1\<close> calls the index is 1 and \<^verbatim>\<open>get_dataset()\<close> returns the
  second stage's dataset. The hand-over fires when the epoch equals start + length + 1.
\<close>

theorem stage_handoff:
  assumes specs: "specs = (t1, p1, L) # (t2, p2, M) # rest"
    and L: "0 \<le> L"
    and T: "\<not> (1 \<le> total_epochs specs \<and> total_epochs specs \<le> L + 1)"
  shows "fst (started nn ns sd specs) = Inr ()
    \<and> (\<forall>k \<le> nat L.
          fst (increment_epochs k (snd (started nn ns sd specs))) = Inr ()
          \<and> curr_stage_index (snd (increment_epochs k (snd (started nn ns sd specs)))) = Some 0
          \<and> fst (get_dataset (snd (increment_epochs k (snd (started nn ns sd specs)))))
              = Inr (Some \<lparr>ds_num_nodes = nn, ds_num_samples = ns, ds_seed = sd,
                           ds_num_tiles = t1, ds_param = p1\<rparr>))
    \<and> fst (increment_epochs (nat L + 1) (snd (started nn ns sd specs))) = Inr ()
    \<and> curr_stage_index (snd (increment_epochs (nat L + 1) (snd (started nn ns sd specs))))
        = Some 1
    \<and> fst (get_dataset (snd (increment_epochs (nat L + 1) (snd (started nn ns sd specs)))))
        = Inr (Some \<lparr>ds_num_nodes = nn, ds_num_samples = ns, ds_seed = sd,
                     ds_num_tiles = t2, ds_param = p2\<rparr>)"
proof -
  let ?st1 = "\<lparr>stage_num_tiles = t1, stage_param = p1, stage_start = 0, stage_length = L\<rparr>"
  let ?st2 = "\<lparr>stage_num_tiles = t2, stage_param = p2, stage_start = L, stage_length = M\<rparr>"
  let ?d1 = "\<lparr>ds_num_nodes = nn, ds_num_samples = ns, ds_seed = sd,
              ds_num_tiles = t1, ds_param = p1\<rparr>"
  let ?d2 = "\<lparr>ds_num_nodes = nn, ds_num_samples = ns, ds_seed = sd,
              ds_num_tiles = t2, ds_param = p2\<rparr>"
  define s0 where "s0 = snd (started nn ns sd specs)"
  have ne: "specs \<noteq> []" using specs by simp
  have st: "stages_from 0 specs = ?st1 # ?st2 # stages_from (L + M) rest"
    using specs by simp
  have ok0: "fst (started nn ns sd specs) = Inr ()" by (simp add: started_eq [OF ne])
  have s0: "s0 = \<lparr>num_nodes = nn, num_samples = ns, seed = sd,
      stages = ?st1 # ?st2 # stages_from (L + M) rest,
      curr_stage_index = Some 0, curr_stage = Some ?st1, curr_dataset = Some ?d1,
      curr_epoch = 0, curr_len = total_epochs specs, finished = False\<rparr>"
    unfolding s0_def started_eq [OF ne] st by simp
  have idle: "increment_epochs k s0 = (Inr (), s0\<lparr>curr_epoch := int k\<rparr>)" if "k \<le> nat L" for k
  proof -
    have "\<forall>j. 1 \<le> j \<and> j \<le> int k \<longrightarrow>
          curr_epoch s0 + j \<noteq> curr_len s0
          \<and> curr_epoch s0 + j \<noteq> stage_start ?st1 + stage_length ?st1 + 1"
      using that T L by (auto simp: s0)
    from increment_epochs_idle [of s0 ?st1 k, OF _ _ this]
    show ?thesis by (simp add: s0)
  qed
  have before: "fst (increment_epochs k s0) = Inr ()
      \<and> curr_stage_index (snd (increment_epochs k s0)) = Some 0
      \<and> fst (get_dataset (snd (increment_epochs k s0))) = Inr (Some ?d1)" if "k \<le> nat L" for k
    using idle [OF that] by (simp add: s0 get_dataset_def)
  have "increment_epochs (Suc (nat L)) s0 = increment_epoch (s0\<lparr>curr_epoch := L\<rparr>)"
    using idle [of "nat L"] L by (simp add: increment_epochs_Suc_end del: increment_epochs.simps)
  also have "\<dots> = (Inr (), s0\<lparr>curr_epoch := L + 1, curr_stage_index := Some 1,
       curr_stage := Some ?st2, curr_dataset := Some ?d2\<rparr>)"
    using T L by (auto simp: s0 increment_epoch_def Let_def py_index_def stage_dataset_def)
  finally have after: "increment_epochs (nat L + 1) s0 = (Inr (), s0\<lparr>curr_epoch := L + 1,
       curr_stage_index := Some 1, curr_stage := Some ?st2, curr_dataset := Some ?d2\<rparr>)"
    by simp
  show ?thesis
    unfolding s0_def [symmetric]
    using ok0 before after by (simp add: get_dataset_def s0)
qed

theorem stage_handoff_witness:
  "(0::int) \<le> 2
   \<and> \<not> (1 \<le> total_epochs [(1, 0::nat, 2), (2, 1, 3)]
        \<and> total_epochs [(1, 0::nat, 2), (2, 1, 3)] \<le> 2 + 1)
   \<and> fst (get_dataset (snd (increment_epochs 2
          (snd (started 20 100 7 [(1, 0::nat, 2), (2, 1, 3)])))))
       = Inr (Some \<lparr>ds_num_nodes = 20, ds_num_samples = 100, ds_seed = 7,
                    ds_num_tiles = 1, ds_param = 0\<rparr>)
   \<and> fst (get_dataset (snd (increment_epochs 3
          (snd (started 20 100 7 [(1, 0::nat, 2), (2, 1, 3)])))))
       = Inr (Some \<lparr>ds_num_nodes = 20, ds_num_samples = 100, ds_seed = 7,
                    ds_num_tiles = 2, ds_param = 1\<rparr>)"
proof -
  have h2: "(0::int) \<le> 2" by simp
  have h3: "\<not> (1 \<le> total_epochs [(1, 0::nat, 2), (2, 1, 3)]
        \<and> total_epochs [(1, 0::nat, 2), (2, 1, 3)] \<le> 2 + 1)" by simp
  note th = stage_handoff [OF refl h2 h3, of 20 100 7]
  from th have "\<forall>k \<le> nat 2.
      fst (get_dataset (snd (increment_epochs k
          (snd (started 20 100 7 [(1, 0::nat, 2), (2, 1, 3)])))))
       = Inr (Some \<lparr>ds_num_nodes = 20, ds_num_samples = 100, ds_seed = 7,
                    ds_num_tiles = 1, ds_param = 0\<rparr>)"
    by blast
  then have "fst (get_dataset (snd (increment_epochs 2
          (snd (started 20 100 7 [(1, 0::nat, 2), (2, 1, 3)])))))
       = Inr (Some \<lparr>ds_num_nodes = 20, ds_num_samples = 100, ds_seed = 7,
                    ds_num_tiles = 1, ds_param = 0\<rparr>)"
    by simp
  moreover have "nat 2 + 1 = (3::nat)" by simp
  ultimately show ?thesis using th h2 h3 by simp
qed

text \<open>
  The claim as written fails when the second stage is the last one and has length 1: with
  stages of lengths 2 and 1, the third \<^verbatim>\<open>increment_epoch()\<close> reaches the total length, the
  \<^verbatim>\<open>not self._finished\<close> guard blocks the hand-over, and \<^verbatim>\<open>get_dataset()\<close> at epoch
  \<open>L + 1 = 3\<close> raises instead of returning the second stage's dataset.
\<close>

theorem stage_handoff_counterexample:
  "fst (get_dataset (snd (increment_epochs 3
      (snd (started 20 100 7 [(1, 0::nat, 2), (2, 1, 1)]))))) = Inl AssertionError
   \<and> curr_stage_index (snd (increment_epochs 3
      (snd (started 20 100 7 [(1, 0::nat, 2), (2, 1, 1)])))) = Some 0
   \<and> curr_dataset (snd (increment_epochs 3
      (snd (started 20 100 7 [(1, 0::nat, 2), (2, 1, 1)]))))
       = Some \<lparr>ds_num_nodes = 20, ds_num_samples = 100, ds_seed = 7,
               ds_num_tiles = 1, ds_param = 0\<rparr>"
  by (simp add: started_def start_def add_stage_def TSPCurriculum_init_def py_index_def
      stage_dataset_def Let_def increment_epoch_def get_dataset_def eval_nat_numeral)

text \<open>
  C2 (as amended). For stages of lengths \<open>L1, \<dots>, Ln\<close> whose sum \<open>T\<close> is at least 1:
  \<^verbatim>\<open>start()\<close> succeeds, none of the first \<open>T\<close> calls of \<^verbatim>\<open>increment_epoch()\<close> raises,
  \<^verbatim>\<open>finished\<close> is true after exactly \<open>T\<close> calls and false after every smaller number of
  calls.
\<close>

theorem finished_after_total:
  assumes "1 \<le> total_epochs specs"
  shows "fst (started nn ns sd specs) = Inr ()
     \<and> fst (increment_epochs (nat (total_epochs specs)) (snd (started nn ns sd specs))) = Inr ()
     \<and> finished (snd (increment_epochs (nat (total_epochs specs)) (snd (started nn ns sd specs))))
     \<and> (\<forall>k < nat (total_epochs specs).
           fst (increment_epochs k (snd (started nn ns sd specs))) = Inr ()
           \<and> \<not> finished (snd (increment_epochs k (snd (started nn ns sd specs)))))"
proof -
  let ?s0 = "snd (started nn ns sd specs)"
  from assms have ne: "specs \<noteq> []" by auto
  from assms have "\<not> (length specs = 1 \<and> total_epochs specs = 0)" by simp
  from started_running [OF ne this] have r0: "running ?s0" .
  have s0: "curr_epoch ?s0 = 0" "curr_len ?s0 = total_epochs specs"
    by (simp_all add: started_eq [OF ne])
  have fin: "finished (snd (increment_epochs k ?s0)) \<longleftrightarrow> total_epochs specs \<le> int k" for k
    using increment_epochs_running [OF r0, of k] assms s0 by (auto simp: running_def)
  have ok: "fst (increment_epochs k ?s0) = Inr ()" for k
    using increment_epochs_running [OF r0, of k] by simp
  show ?thesis
    using fin ok assms by (auto simp: started_eq [OF ne])
qed

theorem finished_after_total_witness:
  "1 \<le> total_epochs [(1, 0::nat, 2), (2, 1, 3)]
   \<and> finished (snd (increment_epochs 5 (snd (started 20 100 7 [(1, 0::nat, 2), (2, 1, 3)]))))
   \<and> \<not> finished (snd (increment_epochs 4 (snd (started 20 100 7 [(1, 0::nat, 2), (2, 1, 3)]))))"
proof -
  have h: "1 \<le> total_epochs [(1, 0::nat, 2), (2, 1, 3)]" by simp
  have n: "nat (total_epochs [(1, 0::nat, 2), (2, 1, 3)]) = 5" by simp
  note th = finished_after_total [OF h, of 20 100 7, unfolded n]
  from th have "\<forall>k<5. \<not> finished (snd (increment_epochs k
      (snd (started 20 100 7 [(1, 0::nat, 2), (2, 1, 3)]))))"
    by blast
  then have "\<not> finished (snd (increment_epochs 4
      (snd (started 20 100 7 [(1, 0::nat, 2), (2, 1, 3)]))))"
    by simp
  with th h show ?thesis by blast
qed

text \<open>
  The claim as written fails for a total length of zero: \<^verbatim>\<open>finished\<close> is only ever set
  inside \<^verbatim>\<open>increment_epoch()\<close>, so after \<^verbatim>\<open>start()\<close> and zero calls it is still false.
\<close>

theorem finished_after_total_counterexample:
  "total_epochs [(1, 0::nat, 0)] = 0
   \<and> fst (started 20 100 7 [(1, 0::nat, 0)]) = Inr ()
   \<and> \<not> finished (snd (increment_epochs (nat (total_epochs [(1, 0::nat, 0)]))
          (snd (started 20 100 7 [(1, 0::nat, 0)]))))"
  by (simp add: started_def start_def add_stage_def TSPCurriculum_init_def py_index_def
      stage_dataset_def Let_def)

text \<open>
  C3. \<^verbatim>\<open>get_dataset()\<close> raises the assertion failure exactly when \<^verbatim>\<open>finished\<close> is
  true; when \<^verbatim>\<open>finished\<close> is false it returns the current dataset; in both cases every
  field of the curriculum is left as it was.
\<close>

theorem get_dataset_contract:
  "(fst (get_dataset s) = Inl AssertionError \<longleftrightarrow> finished s)
   \<and> (\<not> finished s \<longrightarrow> fst (get_dataset s) = Inr (curr_dataset s))
   \<and> snd (get_dataset s) = s"
  by (simp add: get_dataset_def)

theorem get_dataset_contract_witness:
  "\<not> finished (snd (started 20 100 7 [(1, 0::nat, 2)]))
   \<and> fst (get_dataset (snd (started 20 100 7 [(1, 0::nat, 2)])))
       = Inr (curr_dataset (snd (started 20 100 7 [(1, 0::nat, 2)])))
   \<and> curr_dataset (snd (started 20 100 7 [(1, 0::nat, 2)]))
       = Some \<lparr>ds_num_nodes = 20, ds_num_samples = 100, ds_seed = 7,
               ds_num_tiles = 1, ds_param = 0\<rparr>"
proof -
  have h: "\<not> finished (snd (started 20 100 7 [(1, 0::nat, 2)]))"
    by (simp add: started_def start_def add_stage_def TSPCurriculum_init_def py_index_def
        stage_dataset_def Let_def)
  have d: "curr_dataset (snd (started 20 100 7 [(1, 0::nat, 2)]))
       = Some \<lparr>ds_num_nodes = 20, ds_num_samples = 100, ds_seed = 7,
               ds_num_tiles = 1, ds_param = 0\<rparr>"
    by (simp add: started_def start_def add_stage_def TSPCurriculum_init_def py_index_def
        stage_dataset_def Let_def)
  from get_dataset_contract [of "snd (started 20 100 7 [(1, 0::nat, 2)])"] h d
  show ?thesis by blast
qed

text \<open>
  C4 (as amended). For every curriculum started with at least one stage, other than the
  single stage of length zero: after any number \<open>k\<close> of \<^verbatim>\<open>increment_epoch()\<close> calls (none
  of which raises) the stage index is a valid index into the stage list whenever
  \<^verbatim>\<open>finished\<close> is false, the epoch counter equals \<open>k\<close>, and the next call increases it
  by exactly 1.
\<close>

theorem stage_index_valid_and_epoch_counts:
  assumes "specs \<noteq> []" and "\<not> (length specs = 1 \<and> total_epochs specs = 0)"
  shows "fst (started nn ns sd specs) = Inr ()
     \<and> fst (increment_epochs k (snd (started nn ns sd specs))) = Inr ()
     \<and> (\<not> finished (snd (increment_epochs k (snd (started nn ns sd specs)))) \<longrightarrow>
          (\<exists>i. curr_stage_index (snd (increment_epochs k (snd (started nn ns sd specs)))) = Some i
             \<and> 0 \<le> i
             \<and> i < int (length (stages (snd (increment_epochs k (snd (started nn ns sd specs))))))))
     \<and> curr_epoch (snd (increment_epochs k (snd (started nn ns sd specs)))) = int k
     \<and> curr_epoch (snd (increment_epochs (Suc k) (snd (started nn ns sd specs))))
         = curr_epoch (snd (increment_epochs k (snd (started nn ns sd specs)))) + 1"
proof -
  let ?s0 = "snd (started nn ns sd specs)"
  from started_running [OF assms] have r0: "running ?s0" .
  have s0: "curr_epoch ?s0 = 0" by (simp add: started_eq [OF assms(1)])
  note k = increment_epochs_running [OF r0, of k]
  note k1 = increment_epochs_running [OF r0, of "Suc k"]
  from k have "\<exists>i. curr_stage_index (snd (increment_epochs k ?s0)) = Some i \<and> 0 \<le> i
      \<and> i < int (length (stages (snd (increment_epochs k ?s0))))"
    unfolding running_def by auto
  then show ?thesis
    using k k1 s0 by (simp add: started_eq [OF assms(1)])
qed

theorem stage_index_valid_and_epoch_counts_witness:
  "[(1, 0::nat, 2), (2, 1, 3)] \<noteq> []
   \<and> \<not> (length [(1, 0::nat, 2), (2, 1, 3)] = 1 \<and> total_epochs [(1, 0::nat, 2), (2, 1, 3)] = 0)
   \<and> \<not> finished (snd (increment_epochs 4 (snd (started 20 100 7 [(1, 0::nat, 2), (2, 1, 3)]))))
   \<and> (\<exists>i. curr_stage_index (snd (increment_epochs 4
               (snd (started 20 100 7 [(1, 0::nat, 2), (2, 1, 3)])))) = Some i
          \<and> 0 \<le> i
          \<and> i < int (length (stages (snd (increment_epochs 4
               (snd (started 20 100 7 [(1, 0::nat, 2), (2, 1, 3)])))))))
   \<and> curr_epoch (snd (increment_epochs 4
        (snd (started 20 100 7 [(1, 0::nat, 2), (2, 1, 3)])))) = 4"
proof -
  have h1: "[(1, 0::nat, 2), (2, 1::nat, 3::int)] \<noteq> []" by simp
  have h2: "\<not> (length [(1, 0::nat, 2), (2, 1, 3)] = 1
      \<and> total_epochs [(1, 0::nat, 2), (2, 1, 3)] = 0)" by simp
  have nf: "\<not> finished (snd (increment_epochs 4
      (snd (started 20 100 7 [(1, 0::nat, 2), (2, 1, 3)]))))"
    by (simp add: started_def start_def add_stage_def TSPCurriculum_init_def py_index_def
        stage_dataset_def Let_def increment_epoch_def eval_nat_numeral)
  from stage_index_valid_and_epoch_counts [OF h1 h2, of 20 100 7 4] nf h1 h2
  show ?thesis by simp
qed

text \<open>
  The claim as written fails for the single stage of length zero: the first
  \<^verbatim>\<open>increment_epoch()\<close> meets the hand-over epoch \<open>0 + 0 + 1\<close> with \<^verbatim>\<open>finished\<close> false
  (the epoch 1 never equals the total length 0), advances the index to 1 and raises
  \<^verbatim>\<open>IndexError\<close> on the stage lookup, leaving an index outside the one-element stage list.
\<close>

theorem stage_index_valid_and_epoch_counts_counterexample:
  "fst (increment_epoch (snd (started 20 100 7 [(1, 0::nat, 0)]))) = Inl IndexError
   \<and> curr_stage_index (snd (increment_epoch (snd (started 20 100 7 [(1, 0::nat, 0)])))) = Some 1
   \<and> length (stages (snd (increment_epoch (snd (started 20 100 7 [(1, 0::nat, 0)]))))) = 1
   \<and> \<not> finished (snd (increment_epoch (snd (started 20 100 7 [(1, 0::nat, 0)]))))"
  by (simp add: started_def start_def add_stage_def TSPCurriculum_init_def py_index_def
      stage_dataset_def Let_def increment_epoch_def)

text \<open>
  C8. \<^verbatim>\<open>add_stage(num_tiles, param, num_epochs)\<close> changes the curriculum only by appending
  one stage and adding \<open>num_epochs\<close> to the cumulative length: the stages added before
  are the same, and so is every other field. After any sequence of \<^verbatim>\<open>add_stage\<close> calls on
  a fresh curriculum the cumulative length is the sum of their \<open>num_epochs\<close>, so the
  stage appended next starts at that sum.
\<close>

theorem add_stage_postcondition:
  "add_stage s num_tiles param num_epochs =
     s\<lparr>stages := stages s @
          [\<lparr>stage_num_tiles = num_tiles, stage_param = param,
            stage_start = curr_len s, stage_length = num_epochs\<rparr>],
       curr_len := curr_len s + num_epochs\<rparr>
   \<and> curr_len (add_stages (TSPCurriculum_init nn ns sd) specs)
       = sum_list (map (\<lambda>(t, p, e). e) specs)
   \<and> stages (add_stage (add_stages (TSPCurriculum_init nn ns sd) specs)
        num_tiles param num_epochs)
       = stages (add_stages (TSPCurriculum_init nn ns sd) specs) @
          [\<lparr>stage_num_tiles = num_tiles, stage_param = param,
            stage_start = sum_list (map (\<lambda>(t, p, e). e) specs),
            stage_length = num_epochs\<rparr>]
   \<and> curr_len (add_stage (add_stages (TSPCurriculum_init nn ns sd) specs)
        num_tiles param num_epochs)
       = sum_list (map (\<lambda>(t, p, e). e) specs) + num_epochs"
  by (simp add: add_stage_def Let_def add_stages_eq TSPCurriculum_init_def total_epochs_def)

text \<open>
  C9. \<^verbatim>\<open>start()\<close> on a curriculum with no stage raises \<^verbatim>\<open>IndexError\<close> at the lookup of
  stage 0: by then it has set the epoch and the stage index to 0, and it sets neither the
  current stage nor the current dataset.
\<close>

theorem start_without_stages:
  "stages s = [] \<Longrightarrow>
     start s = (Inl IndexError, s\<lparr>curr_epoch := 0, curr_stage_index := Some 0\<rparr>)"
  by (simp add: start_def py_index_def Let_def)

theorem start_without_stages_witness:
  "stages (TSPCurriculum_init 20 100 7 :: nat TSPCurriculum) = []
   \<and> fst (start (TSPCurriculum_init 20 100 7 :: nat TSPCurriculum)) = Inl IndexError
   \<and> curr_dataset (snd (start (TSPCurriculum_init 20 100 7 :: nat TSPCurriculum))) = None"
proof -
  have h: "stages (TSPCurriculum_init 20 100 7 :: nat TSPCurriculum) = []"
    by (simp add: TSPCurriculum_init_def)
  from start_without_stages [OF h] h show ?thesis
    by (simp add: TSPCurriculum_init_def)
qed

text \<open>
  C10 (as amended). Once \<^verbatim>\<open>finished\<close> is true, an \<^verbatim>\<open>increment_epoch()\<close> call adds 1 to the
  epoch and changes no other field (the hand-over branch is guarded by
  \<^verbatim>\<open>not self._finished\<close>). Consequently, for every curriculum of at least two stages whose
  final stage has length 1, no call ever raises and the stage index stays below the final
  index: the current dataset is always the one built for an earlier stage, so the final
  stage's dataset is never constructed and never returned by \<^verbatim>\<open>get_dataset()\<close>.
\<close>

theorem finished_latch_skips_final_stage:
  "(finished s \<longrightarrow> snd (increment_epoch s) = s\<lparr>curr_epoch := curr_epoch s + 1\<rparr>)
   \<and> (front \<noteq> [] \<longrightarrow>
        fst (started nn ns sd (front @ [(t, p, 1)])) = Inr ()
        \<and> fst (increment_epochs k (snd (started nn ns sd (front @ [(t, p, 1)])))) = Inr ()
        \<and> stages (snd (increment_epochs k (snd (started nn ns sd (front @ [(t, p, 1)])))))
            = stages (snd (started nn ns sd (front @ [(t, p, 1)])))
        \<and> length (stages (snd (started nn ns sd (front @ [(t, p, 1)])))) = length front + 1
        \<and> (\<exists>i < length front.
              curr_stage_index (snd (increment_epochs k (snd (started nn ns sd (front @ [(t, p, 1)])))))
                = Some (int i)
              \<and> curr_dataset (snd (increment_epochs k (snd (started nn ns sd (front @ [(t, p, 1)])))))
                = Some (stage_dataset (snd (started nn ns sd (front @ [(t, p, 1)])))
                     (stages (snd (started nn ns sd (front @ [(t, p, 1)]))) ! i))))"
proof (intro conjI impI)
  assume "finished s"
  then show "snd (increment_epoch s) = s\<lparr>curr_epoch := curr_epoch s + 1\<rparr>"
    by (rule finished_latch_step)
next
  assume front: "front \<noteq> []"
  let ?specs = "front @ [(t, p, 1)]"
  define s0 where "s0 = snd (started nn ns sd ?specs)"
  define sk where "sk = snd (increment_epochs k s0)"
  have ne: "?specs \<noteq> []" by simp
  have deg: "\<not> (length ?specs = 1 \<and> total_epochs ?specs = 0)" using front by simp
  have r0: "running s0" unfolding s0_def by (rule started_running [OF ne deg])
  have st0: "stages s0 = stages_from 0 front @
      [\<lparr>stage_num_tiles = t, stage_param = p, stage_start = total_epochs front,
        stage_length = 1\<rparr>]"
    unfolding s0_def by (simp add: started_eq [OF ne] stages_from_append)
  have len0: "length (stages s0) = length front + 1" by (simp add: st0)
  have "stages_from 0 front \<noteq> []"
    using front by (metis length_stages_from length_0_conv)
  then have "last (stages_from 0 front) = stages_from 0 front ! (length front - 1)"
    by (simp add: last_conv_nth)
  then have "stages s0 ! (length (stages s0) - 2) = last (stages_from 0 front)"
    using front by (simp add: st0 nth_append)
  then have pen: "stage_start (stages s0 ! (length (stages s0) - 2))
      + stage_length (stages s0 ! (length (stages s0) - 2)) + 1 = curr_len s0"
    using stages_from_last [OF front, of 0] by (simp add: s0_def started_eq [OF ne])
  have "curr_stage_index s0 = Some (int 0)" by (simp add: s0_def started_eq [OF ne])
  moreover have "Suc 0 < length (stages s0)" using front by (simp add: len0)
  ultimately have b0: "before_last s0" unfolding before_last_def using pen by blast
  note run = increment_epochs_running [OF r0, of k]
  from increment_epochs_before_last [OF r0 b0, of k] have bk: "before_last sk"
    by (simp add: sk_def)
  from run have rk: "running sk" and stk: "stages sk = stages s0"
    by (simp_all add: sk_def)
  from bk obtain i where i: "curr_stage_index sk = Some (int i)" "Suc i < length (stages sk)"
    unfolding before_last_def by blast
  from rk i have "curr_dataset sk = Some (stage_dataset sk (stages sk ! i))"
    unfolding running_def by auto
  moreover have "stage_dataset sk = stage_dataset s0"
    using increment_epochs_params [of k s0] by (simp add: sk_def stage_dataset_def fun_eq_iff)
  ultimately have ds: "curr_dataset sk = Some (stage_dataset s0 (stages s0 ! i))"
    using stk by simp
  from i stk len0 have "i < length front" by simp
  with i ds have ex: "\<exists>i < length front. curr_stage_index sk = Some (int i)
      \<and> curr_dataset sk = Some (stage_dataset s0 (stages s0 ! i))" by blast
  show "fst (started nn ns sd ?specs) = Inr ()" by (simp add: started_eq [OF ne])
  show "fst (increment_epochs k (snd (started nn ns sd ?specs))) = Inr ()"
    using run by (simp add: s0_def)
  show "stages (snd (increment_epochs k (snd (started nn ns sd ?specs))))
      = stages (snd (started nn ns sd ?specs))"
    using stk by (simp add: sk_def s0_def)
  show "length (stages (snd (started nn ns sd ?specs))) = length front + 1"
    using len0 by (simp add: s0_def)
  show "\<exists>i < length front.
      curr_stage_index (snd (increment_epochs k (snd (started nn ns sd ?specs)))) = Some (int i)
      \<and> curr_dataset (snd (increment_epochs k (snd (started nn ns sd ?specs))))
          = Some (stage_dataset (snd (started nn ns sd ?specs))
               (stages (snd (started nn ns sd ?specs)) ! i))"
    using ex by (simp add: sk_def s0_def)
qed

theorem finished_latch_skips_final_stage_witness:
  "finished (snd (increment_epochs 3 (snd (started 20 100 7 [(1, 0::nat, 2), (2, 1, 1)]))))
   \<and> [(1, 0::nat, 2::int)] \<noteq> []
   \<and> snd (increment_epoch (snd (increment_epochs 3
          (snd (started 20 100 7 [(1, 0::nat, 2), (2, 1, 1)])))))
      = (snd (increment_epochs 3 (snd (started 20 100 7 [(1, 0::nat, 2), (2, 1, 1)]))))
          \<lparr>curr_epoch := 4\<rparr>
   \<and> (\<exists>i < length [(1, 0::nat, 2::int)].
         curr_stage_index (snd (increment_epochs 5
            (snd (started 20 100 7 [(1, 0::nat, 2), (2, 1, 1)])))) = Some (int i))"
proof -
  have f: "finished (snd (increment_epochs 3
      (snd (started 20 100 7 [(1, 0::nat, 2), (2, 1, 1)]))))"
    by (simp add: started_def start_def add_stage_def TSPCurriculum_init_def py_index_def
        stage_dataset_def Let_def increment_epoch_def eval_nat_numeral)
  have e: "curr_epoch (snd (increment_epochs 3
      (snd (started 20 100 7 [(1, 0::nat, 2), (2, 1, 1)])))) + 1 = 4"
    by (simp add: started_def start_def add_stage_def TSPCurriculum_init_def py_index_def
        stage_dataset_def Let_def increment_epoch_def eval_nat_numeral)
  have ne: "[(1, 0::nat, 2::int)] \<noteq> []" by simp
  note a = finished_latch_skips_final_stage
    [of "snd (increment_epochs 3 (snd (started 20 100 7 [(1, 0::nat, 2), (2, 1, 1)])))"
        "[(1, 0::nat, 2)]" 20 100 7 2 1 5]
  from a f e have 1: "snd (increment_epoch (snd (increment_epochs 3
          (snd (started 20 100 7 [(1, 0::nat, 2), (2, 1, 1)])))))
      = (snd (increment_epochs 3 (snd (started 20 100 7 [(1, 0::nat, 2), (2, 1, 1)]))))
          \<lparr>curr_epoch := 4\<rparr>"
    by simp
  from a ne have 2: "\<exists>i < length [(1, 0::nat, 2::int)].
         curr_stage_index (snd (increment_epochs 5
            (snd (started 20 100 7 [(1, 0::nat, 2), (2, 1, 1)])))) = Some (int i)"
    by auto
  from f ne 1 2 show ?thesis by blast
qed

text \<open>
  The second part of the claim as written fails for a curriculum of one stage: its final
  stage is the first, whose dataset \<^verbatim>\<open>start()\<close> constructs and \<^verbatim>\<open>get_dataset()\<close> returns
  at epoch 0, also when that stage has length 1.
\<close>

theorem finished_latch_skips_final_stage_counterexample:
  "length (stages (snd (started 20 100 7 [(1, 0::nat, 1)]))) = 1
   \<and> curr_stage_index (snd (started 20 100 7 [(1, 0::nat, 1)])) = Some 0
   \<and> fst (get_dataset (snd (started 20 100 7 [(1, 0::nat, 1)])))
       = Inr (Some \<lparr>ds_num_nodes = 20, ds_num_samples = 100, ds_seed = 7,
                    ds_num_tiles = 1, ds_param = 0\<rparr>)"
  by (simp add: started_def start_def add_stage_def TSPCurriculum_init_def py_index_def
      stage_dataset_def Let_def get_dataset_def)

section \<open>Properties of the tensor functions\<close>

subsection \<open>\<^verbatim>\<open>update_mask\<close>\<close>

lemma scatter_1_unsqueeze:
  assumes "length m = length cs"
    and "\<forall>(row, c) \<in> set (zip m cs). 0 \<le> c \<and> c < int (length row)"
  shows "scatter_1 m (unsqueeze_1d cs) v = Inr (map2 (\<lambda>row c. row[nat c := v]) m cs)"
  using assms
proof (induction m cs rule: list_induct2)
  case Nil
  show ?case by (simp add: unsqueeze_1d_def)
next
  case (Cons row m c cs)
  from Cons.prems have c: "0 \<le> c \<and> c < int (length row)"
    and rest: "\<forall>(row, c) \<in> set (zip m cs). 0 \<le> c \<and> c < int (length row)"
    by auto
  from Cons.IH [OF rest] have "scatter_1 m (map (\<lambda>x. [x]) cs) v
      = Inr (map2 (\<lambda>row c. row[nat c := v]) m cs)"
    by (simp add: unsqueeze_1d_def)
  with c show ?case by (simp add: unsqueeze_1d_def)
qed

text \<open>
  C7. For a mask of shape \<open>[B, N]\<close> and \<^verbatim>\<open>chosen_idx\<close> of shape \<open>[B]\<close> with all values in
  \<open>0 \<dots> N - 1\<close>, \<^verbatim>\<open>update_mask\<close> succeeds and returns the reference it was given; in the
  new store the mask has the same shape, entry \<open>[b, chosen_idx[b]]\<close> is 0 for every
  \<open>b\<close> and every other entry is as before; every other object of the store is as
  before; and the result does not depend on the \<^verbatim>\<open>dynamic\<close> argument.
\<close>

theorem update_mask_effect_and_frame:
  assumes B: "length (h mask_ref) = B"
    and N: "\<forall>row \<in> set (h mask_ref). length row = N"
    and cB: "length chosen_idx = B"
    and cN: "\<forall>c \<in> set chosen_idx. 0 \<le> c \<and> c < int N"
  shows "\<exists>h'. update_mask h mask_ref dynamic chosen_idx = Inr (h', mask_ref)
    \<and> length (h' mask_ref) = B
    \<and> (\<forall>b < B. length (h' mask_ref ! b) = N
          \<and> (\<forall>j < N. h' mask_ref ! b ! j
                = (if j = nat (chosen_idx ! b) then 0 else h mask_ref ! b ! j)))
    \<and> (\<forall>r. r \<noteq> mask_ref \<longrightarrow> h' r = h r)
    \<and> update_mask h mask_ref dynamic' chosen_idx = update_mask h mask_ref dynamic chosen_idx"
proof -
  let ?m' = "map2 (\<lambda>row c. row[nat c := 0]) (h mask_ref) chosen_idx"
  have "\<forall>(row, c) \<in> set (zip (h mask_ref) chosen_idx). 0 \<le> c \<and> c < int (length row)"
  proof (clarify, intro conjI)
    fix row c assume rc: "(row, c) \<in> set (zip (h mask_ref) chosen_idx)"
    from rc have r: "row \<in> set (h mask_ref)" by (rule set_zip_leftD)
    from rc have c: "c \<in> set chosen_idx" by (rule set_zip_rightD)
    from c cN show "0 \<le> c" by blast
    from r N have "length row = N" by blast
    with c cN show "c < int (length row)" by simp
  qed
  from scatter_1_unsqueeze [OF _ this, of 0] B cB
  have sc: "scatter_1 (h mask_ref) (unsqueeze_1d chosen_idx) 0 = Inr ?m'" by simp
  then have u: "update_mask h mask_ref dynamic chosen_idx = Inr (h(mask_ref := ?m'), mask_ref)"
    and u': "update_mask h mask_ref dynamic' chosen_idx = Inr (h(mask_ref := ?m'), mask_ref)"
    by (simp_all add: update_mask_def)
  have len: "length ?m' = B" using B cB by simp
  have entry: "length (?m' ! b) = N
      \<and> (\<forall>j < N. ?m' ! b ! j = (if j = nat (chosen_idx ! b) then 0 else h mask_ref ! b ! j))"
    if "b < B" for b
  proof -
    from that B N have l: "length (h mask_ref ! b) = N" by auto
    from that B cB have "?m' ! b = (h mask_ref ! b)[nat (chosen_idx ! b) := 0]" by simp
    with l show ?thesis by (auto simp: nth_list_update)
  qed
  show ?thesis
    using u u' len entry by (intro exI [of _ "h(mask_ref := ?m')"]) simp
qed

theorem update_mask_effect_and_frame_witness:
  "length ((\<lambda>r. [[1, 1, 1], [1, 1, 1::int]]) (0::nat)) = 2
   \<and> list_all (\<lambda>row. length row = 3) ((\<lambda>r. [[1, 1, 1], [1, 1, 1::int]]) (0::nat))
   \<and> length [1, 1::int] = 2
   \<and> list_all (\<lambda>c. 0 \<le> c \<and> c < int 3) [1, 1::int]
   \<and> (\<exists>h'. update_mask (\<lambda>r. [[1, 1, 1], [1, 1, 1::int]]) 0 () [1, 1] = Inr (h', 0)
         \<and> h' 0 = [[1, 0, 1], [1, 0, 1]])"
proof -
  let ?h = "\<lambda>r::nat. [[1, 1, 1], [1, 1, 1::int]]"
  have h1: "length (?h 0) = 2" by simp
  have h2: "\<forall>row \<in> set (?h 0). length row = 3" by simp
  have h3: "length [1, 1::int] = 2" by simp
  have h4: "\<forall>c \<in> set [1, 1::int]. 0 \<le> c \<and> c < int 3" by simp
  from update_mask_effect_and_frame [of ?h 0 2 3 "[1, 1]" "()" "()", OF h1 h2 h3 h4]
  obtain h' where u: "update_mask ?h 0 () [1, 1] = Inr (h', 0)"
    and l: "length (h' 0) = 2"
    and e: "\<forall>b < 2. length (h' 0 ! b) = 3
          \<and> (\<forall>j < 3. h' 0 ! b ! j = (if j = nat ([1, 1] ! b) then 0 else ?h 0 ! b ! j))"
    by blast
  have "h' 0 = [[1, 0, 1], [1, 0, 1]]"
    using u by (simp add: update_mask_def unsqueeze_1d_def fun_eq_iff) (metis fun_upd_same)
  moreover have "list_all (\<lambda>row. length row = 3) (?h 0)"
    and "list_all (\<lambda>c. 0 \<le> c \<and> c < int 3) [1, 1::int]"
    by simp_all
  ultimately show ?thesis using u h1 h3 by blast
qed

subsection \<open>\<^verbatim>\<open>reward\<close> computes the closed-tour length\<close>

lemma collect_map_Inr:
  "(\<forall>x \<in> set xs. f x = Inr (g x)) \<Longrightarrow> collect (map f xs) = Inr (map g xs)"
  by (induction xs) simp_all

lemma collect_map2_Inr:
  assumes "\<forall>(x, y) \<in> set (zip xs ys). f x y = Inr (g x y)"
  shows "collect (map2 f xs ys) = Inr (map2 g xs ys)"
proof -
  have "\<forall>z \<in> set (zip xs ys). (case z of (x, y) \<Rightarrow> f x y) = Inr (case z of (x, y) \<Rightarrow> g x y)"
    using assms by auto
  from collect_map_Inr [of "zip xs ys" "\<lambda>(x, y). f x y" "\<lambda>(x, y). g x y", OF this]
  show ?thesis .
qed

lemma zip_replicate_right: "zip xs (replicate (length xs) y) = map (\<lambda>x. (x, y)) xs"
  by (induction xs) simp_all

lemma zip_replicate_left: "zip (replicate (length ys) x) ys = map (\<lambda>y. (x, y)) ys"
  by (induction ys) simp_all

lemma expand_dim_single: "expand_dim n [x] = Inr (replicate n x)"
  by (cases "n = 1") (simp_all add: expand_dim_def)

lemma expand_dim_same: "length xs = n \<Longrightarrow> expand_dim n xs = Inr xs"
  by (simp add: expand_dim_def)

lemma expand_as_tours:
  assumes "has_shape3 B D N static" and "has_shape2 B N tour_indices"
  shows "expand_as (unsqueeze_2d tour_indices) static
      = Inr (map2 (\<lambda>t m. replicate D t) tour_indices static)"
proof -
  have len: "length (unsqueeze_2d tour_indices) = length static"
    using assms by (simp add: has_shape3_def has_shape2_def unsqueeze_2d_def)
  have inner: "(case expand_dim (length om) [t] of
          Inl e \<Rightarrow> Inl e
        | Inr m1 \<Rightarrow> collect (map2 (\<lambda>row orow. expand_dim (length orow) row) m1 om))
       = Inr (replicate D t)"
    if "(t, om) \<in> set (zip tour_indices static)" for t and om :: "'a list list"
  proof -
    from that have "t \<in> set tour_indices" "om \<in> set static"
      by (auto dest: set_zip_leftD set_zip_rightD)
    with assms have t: "length t = N" and om: "length om = D" "\<forall>orow \<in> set om. length orow = N"
      by (auto simp: has_shape3_def has_shape2_def)
    have "\<forall>(row, orow) \<in> set (zip (replicate D t) om).
        expand_dim (length orow) row = Inr ((\<lambda>row orow. row) row orow)"
    proof (clarify)
      fix row orow assume z: "(row, orow) \<in> set (zip (replicate D t) om)"
      from z have "row \<in> set (replicate D t)" by (rule set_zip_leftD)
      then have "row = t" by simp
      moreover from z have "orow \<in> set om" by (rule set_zip_rightD)
      ultimately show "expand_dim (length orow) row = Inr row"
        using t om by (simp add: expand_dim_same)
    qed
    from collect_map2_Inr [OF this]
    have "collect (map2 (\<lambda>row orow. expand_dim (length orow) row) (replicate D t) om)
        = Inr (map2 (\<lambda>row orow. row) (replicate D t) om)" .
    also have "map2 (\<lambda>row orow. row) (replicate D t) om = replicate D t"
      using om(1) by (simp add: case_prod_unfold)
    finally show ?thesis by (simp add: expand_dim_single om(1))
  qed
  have "\<forall>(m, om) \<in> set (zip (unsqueeze_2d tour_indices) static).
      (case expand_dim (length om) m of
          Inl e \<Rightarrow> Inl e
        | Inr m1 \<Rightarrow> collect (map2 (\<lambda>row orow. expand_dim (length orow) row) m1 om))
      = Inr ((\<lambda>m om. replicate D (hd m)) m om)"
    using inner by (auto simp: unsqueeze_2d_def zip_map1)
  from collect_map2_Inr [OF this] len
  show ?thesis
    by (simp add: expand_as_def expand_dim_same unsqueeze_2d_def zip_map1 case_prod_unfold)
qed


lemma gather_2_tours:
  assumes st: "has_shape3 B D N static" and ti: "has_shape2 B N tour_indices"
    and val: "valid_tours N tour_indices"
  shows "gather_2 static (map2 (\<lambda>t m. replicate D t) tour_indices static)
      = Inr (map2 gathered_instance static tour_indices)"
proof -
  have len: "length tour_indices = length static"
    using st ti by (simp add: has_shape3_def has_shape2_def)
  have zz: "zip static (map2 (\<lambda>t m. replicate D t) tour_indices static)
      = map (\<lambda>(m, t). (m, replicate D t)) (zip static tour_indices)"
    using len by (induction tour_indices static rule: list_induct2) simp_all
  have inner: "(if length (replicate D t) \<le> length m then
          collect (map2 gather_row m (replicate D t)) else Inl RuntimeError)
        = Inr (gathered_instance m t)"
    if "(m, t) \<in> set (zip static tour_indices)" for m t
  proof -
    from that have "t \<in> set tour_indices" "m \<in> set static"
      by (auto dest: set_zip_leftD set_zip_rightD)
    with st ti val have t: "\<forall>j \<in> set t. 0 \<le> j \<and> j < int N"
      and m: "length m = D" "\<forall>row \<in> set m. length row = N"
      by (auto simp: has_shape3_def has_shape2_def valid_tours_def)
    have "\<forall>(row, ix) \<in> set (zip m (replicate D t)).
        gather_row row ix = Inr ((\<lambda>row ix. map (\<lambda>j. row ! nat j) t) row ix)"
    proof (clarify)
      fix row ix assume z: "(row, ix) \<in> set (zip m (replicate D t))"
      from z have "ix \<in> set (replicate D t)" by (rule set_zip_rightD)
      then have "ix = t" by simp
      moreover from z have "row \<in> set m" by (rule set_zip_leftD)
      ultimately show "gather_row row ix = Inr (map (\<lambda>j. row ! nat j) t)"
        using t m by (simp add: gather_row_def)
    qed
    from collect_map2_Inr [OF this]
    have "collect (map2 gather_row m (replicate D t))
        = Inr (map2 (\<lambda>row ix. map (\<lambda>j. row ! nat j) t) m (replicate D t))" .
    also have "map2 (\<lambda>row ix. map (\<lambda>j. row ! nat j) t) m (replicate D t)
        = gathered_instance m t"
      using m(1) zip_replicate_right [of m t] by (simp add: gathered_instance_def comp_def)
    finally show ?thesis using m(1) by simp
  qed
  let ?F = "\<lambda>z. if length (replicate D (snd z)) \<le> length (fst z)
      then collect (map2 gather_row (fst z) (replicate D (snd z))) else Inl RuntimeError"
  let ?G = "\<lambda>z. gathered_instance (fst z) (snd z)"
  have "\<forall>z \<in> set (zip static tour_indices). ?F z = Inr (?G z)"
  proof
    fix z assume z: "z \<in> set (zip static tour_indices)"
    obtain m t where mt: "z = (m, t)" by (cases z)
    from inner [of m t] z mt show "?F z = Inr (?G z)" by (simp split: if_splits)
  qed
  from collect_map_Inr [OF this]
  have c: "collect (map ?F (zip static tour_indices)) = Inr (map ?G (zip static tour_indices))" .
  have l: "map2 (\<lambda>m im. if length im \<le> length m then collect (map2 gather_row m im)
          else Inl RuntimeError) static (map2 (\<lambda>t m. replicate D t) tour_indices static)
      = map ?F (zip static tour_indices)"
    unfolding zz by (simp add: case_prod_unfold comp_def)
  have r: "map2 gathered_instance static tour_indices = map ?G (zip static tour_indices)"
    by (simp add: case_prod_unfold)
  have "length (map2 (\<lambda>t m. replicate D t) tour_indices static) \<le> length static"
    by simp
  then show ?thesis
    unfolding gather_2_def l r using c by simp
qed

lemma zip_map_map_same: "zip (map f xs) (map g xs) = map (\<lambda>x. (f x, g x)) xs"
  by (induction xs) simp_all

lemma reward_instances:
  assumes st: "has_shape3 B D N static" and ti: "has_shape2 B N tour_indices"
    and val: "valid_tours N tour_indices"
  shows "reward static tour_indices
      = Inr (map2 (\<lambda>m t. instance_length (gathered_instance m t)) static tour_indices)"
proof -
  let ?G = "map2 gathered_instance static tour_indices"
  have "reward static tour_indices =
      (let tour = permute_0_2_1 ?G;
           y = map2 (@) tour (map (take 1) tour);
           diff = map2 (map2 (map2 (-))) (map butlast y) (map tl y);
           tour_len = map (map (\<lambda>p. sqrt (sum_list (map (\<lambda>x. x ^ 2) p)))) diff
       in Inr (map sum_list tour_len))"
    by (simp add: reward_def expand_as_tours [OF st ti] gather_2_tours [OF st ti val])
  also have "\<dots> = Inr (map instance_length ?G)"
    by (simp add: permute_0_2_1_def Let_def zip_map_map_same instance_length_def comp_def)
  also have "map instance_length ?G
      = map2 (\<lambda>m t. instance_length (gathered_instance m t)) static tour_indices"
    by (simp add: case_prod_unfold)
  finally show ?thesis .
qed

lemma closed_pairs:
  "map2 f (butlast (ps @ take 1 ps)) (tl (ps @ take 1 ps))
     = map (\<lambda>k. f (ps ! k) (ps ! ((k + 1) mod length ps))) [0..<length ps]"
proof (cases ps)
  case Nil
  then show ?thesis by simp
next
  case (Cons p qs)
  have nxt: "(qs @ [p]) ! k = (p # qs) ! ((k + 1) mod Suc (length qs))"
    if "k < Suc (length qs)" for k
  proof (cases "k < length qs")
    case True
    then show ?thesis by (simp add: nth_append)
  next
    case False
    with that have "k = length qs" by simp
    then show ?thesis by simp
  qed
  have "map2 f (p # qs) (qs @ [p])
      = map (\<lambda>k. f ((p # qs) ! k) ((p # qs) ! ((k + 1) mod Suc (length qs))))
          [0..<Suc (length qs)]"
  proof (rule nth_equalityI)
    show "length (map2 f (p # qs) (qs @ [p]))
        = length (map (\<lambda>k. f ((p # qs) ! k) ((p # qs) ! ((k + 1) mod Suc (length qs))))
            [0..<Suc (length qs)])"
      by simp
  next
    fix k assume "k < length (map2 f (p # qs) (qs @ [p]))"
    then have k: "k < Suc (length qs)" by simp
    then have "map2 f (p # qs) (qs @ [p]) ! k = f ((p # qs) ! k) ((qs @ [p]) ! k)"
      by simp
    also have "\<dots> = f ((p # qs) ! k) ((p # qs) ! ((k + 1) mod Suc (length qs)))"
      using nxt [OF k] by simp
    also have "\<dots> = map (\<lambda>k. f ((p # qs) ! k) ((p # qs) ! ((k + 1) mod Suc (length qs))))
            [0..<Suc (length qs)] ! k"
      using k by (simp del: upt_Suc)
    finally show "map2 f (p # qs) (qs @ [p]) ! k
        = map (\<lambda>k. f ((p # qs) ! k) ((p # qs) ! ((k + 1) mod Suc (length qs))))
            [0..<Suc (length qs)] ! k" .
  qed
  then show ?thesis using Cons by (simp add: butlast_append)
qed

lemma swap_dims_gathered:
  assumes "m \<noteq> []"
  shows "swap_dims (gathered_instance m t)
      = map (\<lambda>k. map (\<lambda>row. row ! nat (t ! k)) m) [0..<length t]"
proof -
  obtain r rs where m: "m = r # rs" using assms by (cases m) auto
  have "swap_dims (gathered_instance m t)
      = map (\<lambda>k. map (\<lambda>row. row ! k) (gathered_instance m t)) [0..<length t]"
    by (simp add: swap_dims_def gathered_instance_def m)
  also have "\<dots> = map (\<lambda>k. map (\<lambda>row. row ! nat (t ! k)) m) [0..<length t]"
    by (rule map_cong) (simp_all add: gathered_instance_def comp_def)
  finally show ?thesis .
qed

lemma edge_length_columns:
  "edge_length (map (\<lambda>row. row ! i) m) (map (\<lambda>row. row ! j) m) = euclid m i j"
  by (simp add: edge_length_def euclid_def zip_map_map_same comp_def)

lemma instance_length_closed_tour:
  "instance_length (gathered_instance m t) = closed_tour_length m t"
proof (cases "m = []")
  case True
  then show ?thesis
    by (simp add: instance_length_def gathered_instance_def swap_dims_def
        closed_tour_length_def euclid_def)
next
  case False
  let ?ps = "map (\<lambda>k. map (\<lambda>row. row ! nat (t ! k)) m) [0..<length t]"
  have "instance_length (gathered_instance m t)
      = sum_list (map2 edge_length (butlast (?ps @ take 1 ?ps)) (tl (?ps @ take 1 ?ps)))"
    by (simp add: instance_length_def swap_dims_gathered [OF False] Let_def edge_length_def
        case_prod_unfold comp_def del: upt_Suc)
  also have "map2 edge_length (butlast (?ps @ take 1 ?ps)) (tl (?ps @ take 1 ?ps))
      = map (\<lambda>k. edge_length (?ps ! k) (?ps ! ((k + 1) mod length ?ps))) [0..<length ?ps]"
    by (rule closed_pairs)
  also have "\<dots> = map (\<lambda>k. euclid m (nat (t ! k)) (nat (t ! ((k + 1) mod length t))))
      [0..<length t]"
  proof (rule map_cong)
    show "[0..<length ?ps] = [0..<length t]" by simp
  next
    fix k assume "k \<in> set [0..<length t]"
    then have k: "k < length t" by simp
    then have "0 < length t" by (cases t) simp_all
    then have k': "(k + 1) mod length t < length t" by (rule mod_less_divisor)
    show "edge_length (?ps ! k) (?ps ! ((k + 1) mod length ?ps))
        = euclid m (nat (t ! k)) (nat (t ! ((k + 1) mod length t)))"
      using k k' by (simp add: edge_length_columns del: upt_Suc)
  qed
  finally show ?thesis by (simp add: closed_tour_length_def)
qed

lemma euclid_sym: "euclid m i j = euclid m j i"
  by (simp add: euclid_def power2_commute)

lemma closed_tour_length_sum:
  "closed_tour_length m t
     = (\<Sum>k<length t. euclid m (nat (t ! k)) (nat (t ! ((k + 1) mod length t))))"
  by (simp add: closed_tour_length_def interv_sum_list_conv_sum_set_nat lessThan_atLeast0)

lemma closed_tour_length_rev: "closed_tour_length m (rev t) = closed_tour_length m t"
proof (cases t)
  case Nil
  then show ?thesis by simp
next
  case (Cons x xs)
  define p where "p = length xs"
  have n: "length t = Suc p" using Cons by (simp add: p_def)
  let ?e = "\<lambda>i j. euclid m (nat (t ! i)) (nat (t ! j))"
  have fwd: "closed_tour_length m t = (\<Sum>k<p. ?e k (Suc k)) + ?e p 0"
    by (simp add: closed_tour_length_sum n)
  have "closed_tour_length m (rev t)
      = (\<Sum>k<p. euclid m (nat (rev t ! k)) (nat (rev t ! Suc k)))
        + euclid m (nat (rev t ! p)) (nat (rev t ! 0))"
    by (simp add: closed_tour_length_sum n)
  also have "euclid m (nat (rev t ! p)) (nat (rev t ! 0)) = ?e p 0"
    by (simp add: rev_nth n euclid_sym)
  also have "(\<Sum>k<p. euclid m (nat (rev t ! k)) (nat (rev t ! Suc k)))
      = (\<Sum>k<p. ?e (p - Suc k) (Suc (p - Suc k)))"
  proof (rule sum.cong)
    fix k assume "k \<in> {..<p}"
    then have k: "k < p" by simp
    then have "rev t ! k = t ! (p - k)" "rev t ! Suc k = t ! (p - Suc k)"
      by (simp_all add: rev_nth n)
    moreover from k have "Suc (p - Suc k) = p - k" by simp
    ultimately show "euclid m (nat (rev t ! k)) (nat (rev t ! Suc k))
        = ?e (p - Suc k) (Suc (p - Suc k))"
      by (simp add: euclid_sym)
  qed simp
  also have "\<dots> = (\<Sum>k<p. ?e k (Suc k))"
    by (rule sum.nat_diff_reindex)
  finally show ?thesis using fwd by simp
qed

lemma reward_closed_tour:
  assumes st: "has_shape3 B D N static" and ti: "has_shape2 B N tour_indices"
    and val: "valid_tours N tour_indices"
  shows "reward static tour_indices = Inr (map2 closed_tour_length static tour_indices)"
  by (simp add: reward_instances [OF st ti val] instance_length_closed_tour)

lemma unit_square_length:
  "closed_tour_length [[0, 1, 1, 0], [0, 0, 1, 1]] [0, 1, 2, 3] = 4"
  by (simp add: closed_tour_length_def euclid_def upt_rec)

lemma crossed_square_length:
  "closed_tour_length [[0, 1, 1, 0], [0, 0, 1, 1]] [0, 2, 1, 3] = 2 + 2 * sqrt 2"
  by (simp add: closed_tour_length_def euclid_def upt_rec)

lemma map2_replicate:
  "map2 f (replicate n x) (replicate n y) = replicate n (f x y)"
  by (induction n) simp_all

lemma map2_map_right: "map2 f xs (map g ys) = map2 (\<lambda>x y. f x (g y)) xs ys"
  by (simp add: zip_map2 case_prod_unfold)

text \<open>
  C5. For coordinates of shape \<open>[B, D, N]\<close> and tours of shape \<open>[B, N]\<close> whose entries
  are city indices, \<^verbatim>\<open>reward\<close> returns a tensor of shape \<open>[B]\<close> whose entry \<open>b\<close> is the
  closed-tour Euclidean length of instance \<open>b\<close>: the sum, over the consecutive pairs of
  the visit order and the pair from the last city back to the first, of the square root of
  the sum of the squared coordinate differences. For the corners \<open>(0,0), (1,0), (1,1),
  (0,1)\<close> visited in that order it returns 4 for every batch element.
\<close>

theorem reward_is_closed_tour_length:
  "(has_shape3 B D N static \<and> has_shape2 B N tour_indices \<and> valid_tours N tour_indices
      \<longrightarrow> (\<exists>r. reward static tour_indices = Inr r \<and> length r = B
             \<and> (\<forall>b < B. r ! b = closed_tour_length (static ! b) (tour_indices ! b))))
   \<and> reward (replicate B [[0, 1, 1, 0], [0, 0, 1, 1]]) (replicate B [0, 1, 2, 3])
       = Inr (replicate B 4)"
proof (intro conjI impI)
  assume a: "has_shape3 B D N static \<and> has_shape2 B N tour_indices
      \<and> valid_tours N tour_indices"
  then have st: "has_shape3 B D N static" and ti: "has_shape2 B N tour_indices"
    and val: "valid_tours N tour_indices" by simp_all
  from st ti have len: "length static = B" "length tour_indices = B"
    by (simp_all add: has_shape3_def has_shape2_def)
  let ?r = "map2 closed_tour_length static tour_indices"
  have "reward static tour_indices = Inr ?r" by (rule reward_closed_tour [OF st ti val])
  moreover have "length ?r = B" using len by simp
  moreover have "\<forall>b < B. ?r ! b = closed_tour_length (static ! b) (tour_indices ! b)"
    using len by simp
  ultimately show "\<exists>r. reward static tour_indices = Inr r \<and> length r = B
      \<and> (\<forall>b < B. r ! b = closed_tour_length (static ! b) (tour_indices ! b))"
    by blast
next
  have st: "has_shape3 B 2 4 (replicate B [[0, 1, 1, 0], [0, 0, 1, 1 :: real]])"
    by (simp add: has_shape3_def has_shape2_def)
  have ti: "has_shape2 B 4 (replicate B [0, 1, 2, 3 :: int])"
    by (simp add: has_shape2_def)
  have val: "valid_tours 4 (replicate B [0, 1, 2, 3])"
    by (simp add: valid_tours_def)
  show "reward (replicate B [[0, 1, 1, 0], [0, 0, 1, 1]]) (replicate B [0, 1, 2, 3])
       = Inr (replicate B 4)"
    by (simp add: reward_closed_tour [OF st ti val] map2_replicate unit_square_length)
qed

theorem reward_is_closed_tour_length_witness:
  "has_shape3 1 2 3 [[[0, 3, 3], [0, 0, 4 :: real]]]
   \<and> has_shape2 1 3 [[0, 1, 2 :: int]]
   \<and> valid_tours 3 [[0, 1, 2]]
   \<and> reward [[[0, 3, 3], [0, 0, 4]]] [[0, 1, 2]] = Inr [12]
   \<and> closed_tour_length [[0, 3, 3], [0, 0, 4]] [0, 1, 2] = 12"
proof -
  have h1: "has_shape3 1 2 3 [[[0, 3, 3], [0, 0, 4 :: real]]]"
    by (simp add: has_shape3_def has_shape2_def)
  have h2: "has_shape2 1 3 [[0, 1, 2 :: int]]" by (simp add: has_shape2_def)
  have h3: "valid_tours 3 [[0, 1, 2]]" by (simp add: valid_tours_def)
  have "sqrt 25 = sqrt (5 ^ 2)" by simp
  also have "\<dots> = 5" by (simp del: real_sqrt_four)
  finally have s: "sqrt 25 = 5" .
  have c: "closed_tour_length [[0, 3, 3], [0, 0, 4]] [0, 1, 2] = 12"
    using s by (simp add: closed_tour_length_def euclid_def upt_rec)
  from reward_is_closed_tour_length [of 1 2 3 "[[[0, 3, 3], [0, 0, 4]]]" "[[0, 1, 2]]"]
    h1 h2 h3
  obtain r where r: "reward [[[0, 3, 3], [0, 0, 4]]] [[0, 1, 2]] = Inr r" "length r = 1"
    "\<forall>b < 1. r ! b = closed_tour_length ([[[0, 3, 3], [0, 0, 4]]] ! b) ([[0, 1, 2]] ! b)"
    by blast
  from r(3) c have "r ! 0 = 12" by simp
  with r(2) have "r = [12]" by (cases r) auto
  with r(1) h1 h2 h3 c show ?thesis by simp
qed

text \<open>
  C6. Reversing the visit order of every tour does not change what \<^verbatim>\<open>reward\<close> returns, and
  there is an input on which another reordering of the same cities does: on the unit square
  the order 0, 2, 1, 3 has length \<open>2 + 2 \<surd>2\<close>, the order 0, 1, 2, 3 has length 4.
\<close>

theorem reward_direction_invariant:
  "(has_shape3 B D N static \<and> has_shape2 B N tour_indices \<and> valid_tours N tour_indices
      \<longrightarrow> (\<exists>r. reward static (map rev tour_indices) = Inr r
             \<and> reward static tour_indices = Inr r))
   \<and> set [0, 2, 1, 3 :: int] = set [0, 1, 2, 3]
   \<and> reward [[[0, 1, 1, 0], [0, 0, 1, 1]]] [[0, 2, 1, 3]]
       \<noteq> reward [[[0, 1, 1, 0], [0, 0, 1, 1]]] [[0, 1, 2, 3]]"
proof (intro conjI impI)
  assume a: "has_shape3 B D N static \<and> has_shape2 B N tour_indices
      \<and> valid_tours N tour_indices"
  then have st: "has_shape3 B D N static" and ti: "has_shape2 B N tour_indices"
    and val: "valid_tours N tour_indices" by simp_all
  from ti have ti': "has_shape2 B N (map rev tour_indices)"
    by (simp add: has_shape2_def)
  from val have val': "valid_tours N (map rev tour_indices)"
    by (simp add: valid_tours_def)
  have "reward static (map rev tour_indices)
      = Inr (map2 closed_tour_length static (map rev tour_indices))"
    by (rule reward_closed_tour [OF st ti' val'])
  also have "map2 closed_tour_length static (map rev tour_indices)
      = map2 closed_tour_length static tour_indices"
    by (simp add: map2_map_right closed_tour_length_rev)
  finally show "\<exists>r. reward static (map rev tour_indices) = Inr r
      \<and> reward static tour_indices = Inr r"
    using reward_closed_tour [OF st ti val] by simp
next
  show "set [0, 2, 1, 3 :: int] = set [0, 1, 2, 3]" by auto
next
  have st: "has_shape3 1 2 4 [[[0, 1, 1, 0], [0, 0, 1, 1 :: real]]]"
    by (simp add: has_shape3_def has_shape2_def)
  have a: "reward [[[0, 1, 1, 0], [0, 0, 1, 1]]] [[0, 2, 1, 3]] = Inr [2 + 2 * sqrt 2]"
    using reward_closed_tour [OF st, of "[[0, 2, 1, 3]]"]
    by (simp add: has_shape2_def valid_tours_def crossed_square_length)
  have b: "reward [[[0, 1, 1, 0], [0, 0, 1, 1]]] [[0, 1, 2, 3]] = Inr [4]"
    using reward_closed_tour [OF st, of "[[0, 1, 2, 3]]"]
    by (simp add: has_shape2_def valid_tours_def unit_square_length)
  have "sqrt 2 \<noteq> 1" by simp
  then have "2 + 2 * sqrt 2 \<noteq> 4" by simp
  with a b show "reward [[[0, 1, 1, 0], [0, 0, 1, 1]]] [[0, 2, 1, 3]]
       \<noteq> reward [[[0, 1, 1, 0], [0, 0, 1, 1]]] [[0, 1, 2, 3]]"
    by simp
qed

theorem reward_direction_invariant_witness:
  "has_shape3 1 2 3 [[[0, 3, 3], [0, 0, 4 :: real]]]
   \<and> has_shape2 1 3 [[0, 1, 2 :: int]]
   \<and> valid_tours 3 [[0, 1, 2]]
   \<and> map rev [[0, 1, 2 :: int]] = [[2, 1, 0]]
   \<and> reward [[[0, 3, 3], [0, 0, 4]]] [[2, 1, 0]] = reward [[[0, 3, 3], [0, 0, 4]]] [[0, 1, 2]]"
proof -
  have h1: "has_shape3 1 2 3 [[[0, 3, 3], [0, 0, 4 :: real]]]"
    by (simp add: has_shape3_def has_shape2_def)
  have h2: "has_shape2 1 3 [[0, 1, 2 :: int]]" by (simp add: has_shape2_def)
  have h3: "valid_tours 3 [[0, 1, 2]]" by (simp add: valid_tours_def)
  have r: "map rev [[0, 1, 2 :: int]] = [[2, 1, 0]]" by simp
  from reward_direction_invariant [of 1 2 3 "[[[0, 3, 3], [0, 0, 4]]]" "[[0, 1, 2]]"] h1 h2 h3
  obtain x where "reward [[[0, 3, 3], [0, 0, 4]]] (map rev [[0, 1, 2]]) = Inr x"
    "reward [[[0, 3, 3], [0, 0, 4]]] [[0, 1, 2]] = Inr x"
    by blast
  then have "reward [[[0, 3, 3], [0, 0, 4]]] [[2, 1, 0]]
      = reward [[[0, 3, 3], [0, 0, 4]]] [[0, 1, 2]]"
    by (simp only: r)
  with h1 h2 h3 r show ?thesis by blast
qed

end
